theory Spec2Isabelle
  imports Complex_Main "HOL-Library.Word"
begin

section \<open>JavaScript values\<close>

text \<open>
  A JavaScript string is the list of its UTF-16 code units; a literal of the source
  is written \<open>lit ''...''\<close>. A value that may be \<open>null\<close> or \<open>undefined\<close> is an
  \<^typ>\<open>'a option\<close>, \<open>None\<close> standing for both (the two values that \<open>==\<close>
  identifies and that every test of the source treats alike). A \<open>Uint8Array\<close> is
  a list of bytes.
\<close>

type_synonym bytes = "8 word list"

type_synonym jstring = "16 word list"

definition code_unit :: "char \<Rightarrow> 16 word" where
  "code_unit c = word_of_nat (of_char c)"

definition lit :: "string \<Rightarrow> jstring" where
  "lit s = map code_unit s"

text \<open>
  A string is well formed when every surrogate code unit stands in a pair, a high
  one followed by a low one. The text encoder replaces a lone surrogate by U+FFFD,
  so only a well-formed string comes back from the encoder and the decoder.
\<close>

definition high_surrogate :: "16 word \<Rightarrow> bool" where
  "high_surrogate u \<longleftrightarrow> 0xD800 \<le> u \<and> u \<le> 0xDBFF"

definition low_surrogate :: "16 word \<Rightarrow> bool" where
  "low_surrogate u \<longleftrightarrow> 0xDC00 \<le> u \<and> u \<le> 0xDFFF"

fun well_formed :: "jstring \<Rightarrow> bool" where
  "well_formed [] = True"
| "well_formed [u] = (\<not> high_surrogate u \<and> \<not> low_surrogate u)"
| "well_formed (u # l # rest) =
     (if high_surrogate u then low_surrogate l \<and> well_formed rest
      else \<not> low_surrogate u \<and> well_formed (l # rest))"

text \<open>
  The text decoder, as the source calls it, also drops a byte order mark at the
  start. The strings that the encoder and the decoder carry unchanged are the
  well-formed ones that do not start with U+FEFF.
\<close>

definition encodable :: "jstring \<Rightarrow> bool" where
  "encodable s \<longleftrightarrow> well_formed s \<and> (case s of [] \<Rightarrow> True | u # rest \<Rightarrow> u \<noteq> 0xFEFF)"

datatype json =
    JNull
  | JBool bool
  | JNum rat
  | JStr jstring
  | JArr "json list"
  | JObj "(jstring \<times> json) list"

text \<open>Truthiness, as \<open>if (v)\<close>, \<open>!v\<close>, \<open>v ? a : b\<close> and \<open>v || d\<close> test it.\<close>

fun js_truthy :: "json \<Rightarrow> bool" where
  "js_truthy JNull = False"
| "js_truthy (JBool b) = b"
| "js_truthy (JNum q) = (q \<noteq> 0)"
| "js_truthy (JStr s) = (s \<noteq> [])"
| "js_truthy (JArr xs) = True"
| "js_truthy (JObj kvs) = True"

definition truthy_str :: "jstring option \<Rightarrow> bool" where
  "truthy_str v = (case v of None \<Rightarrow> False | Some s \<Rightarrow> s \<noteq> [])"

definition truthy_num :: "int option \<Rightarrow> bool" where
  "truthy_num v = (case v of None \<Rightarrow> False | Some n \<Rightarrow> n \<noteq> 0)"

text \<open>\<open>JSON.parse\<close> yields \<open>null\<close> for the text \<open>null\<close>; as a field of a record
  that is the empty option.\<close>

definition nullable :: "json \<Rightarrow> json option" where
  "nullable j = (if j = JNull then None else Some j)"

text \<open>\<open>s.includes(p)\<close>.\<close>

fun str_includes :: "'a list \<Rightarrow> 'a list \<Rightarrow> bool" where
  "str_includes [] p = (p = [])"
| "str_includes (c # cs) p = (take (length p) (c # cs) = p \<or> str_includes cs p)"

text \<open>
  The string that a parsed value becomes where the source hands it to a function
  that expects a string (\<open>atob\<close>): \<open>null\<close>, a boolean and a number are spelled
  out, an array is its elements joined by commas with \<open>null\<close> left empty, an
  object is \<open>[object Object]\<close>. The spelling of a number is the platform's and is
  the argument \<open>number_text\<close>.
\<close>

fun js_string :: "(rat \<Rightarrow> jstring) \<Rightarrow> json \<Rightarrow> jstring"
  and js_join :: "(rat \<Rightarrow> jstring) \<Rightarrow> json list \<Rightarrow> jstring" where
  "js_string number_text JNull = lit ''null''"
| "js_string number_text (JBool b) = (if b then lit ''true'' else lit ''false'')"
| "js_string number_text (JNum q) = number_text q"
| "js_string number_text (JStr s) = s"
| "js_string number_text (JArr xs) = js_join number_text xs"
| "js_string number_text (JObj kvs) = lit ''[object Object]''"
| "js_join number_text [] = []"
| "js_join number_text [x] = (if x = JNull then [] else js_string number_text x)"
| "js_join number_text (x # y # ys) =
     (if x = JNull then [] else js_string number_text x) @ lit '','' @ js_join number_text (y # ys)"

section \<open>Errors\<close>

text \<open>
  Every \<open>throw new Error(msg)\<close> of the three modules is one constructor, named after
  its message. The exceptions that the platform raises inside the crypto module
  (\<open>JSON.parse\<close>, \<open>atob\<close>, \<open>crypto.subtle.decrypt\<close>, a property read on \<open>null\<close> or
  \<open>undefined\<close>) are the next four; no code of the model reads their message, which
  is set to their name. \<open>Thrown m\<close> is a value that the token provider, \<open>fetch\<close> or
  \<open>response.json()\<close> rejects with: \<open>m\<close> is its \<open>message\<close>, if it has one that
  is a string.
\<close>

datatype error =
    UserNotAuthenticated
  | SaltNotFound
  | InvalidPassphrase
  | InvalidKeyMaterial
  | FetchVerificationFailed
  | VerifyFailed
  | SaveSaltFailed
  | OpenDBFailed
  | StoreKeyFailed
  | RetrieveKeyFailed
  | RetrieveForClearFailed
  | ClearKeyFailed
  | RetrieveForSaltFailed
  | StoreSaltFailed
  | SyntaxError
  | InvalidCharacterError
  | OperationError
  | TypeError
  | Thrown "jstring option"

fun message_text :: "error \<Rightarrow> string" where
  "message_text UserNotAuthenticated = ''User not authenticated''"
| "message_text SaltNotFound = ''Salt not found. Please set up encryption first.''"
| "message_text InvalidPassphrase = ''Invalid passphrase. Please try again.''"
| "message_text InvalidKeyMaterial = ''Invalid key material''"
| "message_text FetchVerificationFailed = ''Failed to fetch encrypted data for verification''"
| "message_text VerifyFailed = ''Failed to verify passphrase. Please try again.''"
| "message_text SaveSaltFailed = ''Failed to save salt''"
| "message_text OpenDBFailed = ''Failed to open IndexedDB''"
| "message_text StoreKeyFailed = ''Failed to store encrypted key''"
| "message_text RetrieveKeyFailed = ''Failed to retrieve encrypted key''"
| "message_text RetrieveForClearFailed = ''Failed to retrieve user data for clearing''"
| "message_text ClearKeyFailed = ''Failed to clear encrypted key''"
| "message_text RetrieveForSaltFailed = ''Failed to retrieve user data for salt storage''"
| "message_text StoreSaltFailed = ''Failed to store salt''"
| "message_text SyntaxError = ''SyntaxError''"
| "message_text InvalidCharacterError = ''InvalidCharacterError''"
| "message_text OperationError = ''OperationError''"
| "message_text TypeError = ''TypeError''"
| "message_text (Thrown m) = []"

text \<open>\<open>error.message\<close>.\<close>

definition message :: "error \<Rightarrow> jstring option" where
  "message err = (case err of Thrown m \<Rightarrow> m | _ \<Rightarrow> Some (lit (message_text err)))"

section \<open>The platform\<close>

text \<open>
  The Web Crypto API, the text codecs, \<open>btoa\<close>/\<open>atob\<close> and \<open>JSON\<close> belong to
  the browser, not to the repository: they are the fields of a record that every
  function of the crypto module takes. A failing call returns \<open>None\<close>. The source
  calls \<open>btoa\<close> only on strings that it built from bytes, on which it does not
  fail. \<open>json_safe\<close> holds of the values that \<open>JSON.stringify\<close> and
  \<open>JSON.parse\<close> carry unchanged.
\<close>

record 'k platform =
  pbkdf2 :: "jstring \<Rightarrow> bytes \<Rightarrow> nat \<Rightarrow> 'k"
  aes_gcm_encrypt :: "'k \<Rightarrow> bytes \<Rightarrow> bytes \<Rightarrow> bytes"
  aes_gcm_decrypt :: "'k \<Rightarrow> bytes \<Rightarrow> bytes \<Rightarrow> bytes option"
  utf8_encode :: "jstring \<Rightarrow> bytes"
  utf8_decode :: "bytes \<Rightarrow> jstring"
  btoa :: "jstring \<Rightarrow> jstring"
  atob :: "jstring \<Rightarrow> jstring option"
  json_stringify :: "json \<Rightarrow> jstring"
  json_parse :: "jstring \<Rightarrow> json option"
  json_safe :: "json \<Rightarrow> bool"
  number_text :: "rat \<Rightarrow> jstring"

section \<open>Crypto utilities\<close>

definition PBKDF2_ITERATIONS :: nat where
  "PBKDF2_ITERATIONS = 100000"

definition IV_LENGTH :: nat where
  "IV_LENGTH = 12"

definition deriveKey :: "'k platform \<Rightarrow> jstring \<Rightarrow> bytes \<Rightarrow> 'k" where
  "deriveKey P passphrase bs = pbkdf2 P passphrase bs PBKDF2_ITERATIONS"

text \<open>
  The two helper loops: \<open>binary += String.fromCharCode(bytes[i])\<close> for every
  index, and \<open>bytes[i] = binary.charCodeAt(i)\<close> for every index, where the store
  into the \<open>Uint8Array\<close> keeps the low eight bits.
\<close>

definition fromCharCode :: "8 word \<Rightarrow> 16 word" where
  "fromCharCode b = word_of_nat (unat b)"

definition charCodeAt :: "16 word \<Rightarrow> 8 word" where
  "charCodeAt u = word_of_nat (unat u)"

definition arrayBufferToBase64 :: "'k platform \<Rightarrow> bytes \<Rightarrow> jstring" where
  "arrayBufferToBase64 P buffer =
     btoa P (foldl (\<lambda>binary b. binary @ [fromCharCode b]) [] buffer)"

definition base64ToArrayBuffer :: "'k platform \<Rightarrow> jstring \<Rightarrow> error + bytes" where
  "base64ToArrayBuffer P base64 =
     (case atob P base64 of
        None \<Rightarrow> Inl InvalidCharacterError
      | Some binary \<Rightarrow> Inr (map charCodeAt binary))"

record encrypted_field =
  ciphertext :: jstring
  iv :: jstring

text \<open>\<open>encrypt\<close>; the \<open>IV_LENGTH\<close> bytes that \<open>crypto.getRandomValues\<close> draws
  are the argument \<open>nonce\<close>.\<close>

definition encrypt :: "'k platform \<Rightarrow> jstring \<Rightarrow> 'k \<Rightarrow> bytes \<Rightarrow> encrypted_field" where
  "encrypt P plaintext key nonce =
     \<lparr>ciphertext = arrayBufferToBase64 P (aes_gcm_encrypt P key nonce (utf8_encode P plaintext)),
      iv = arrayBufferToBase64 P nonce\<rparr>"

definition decrypt :: "'k platform \<Rightarrow> jstring \<Rightarrow> jstring \<Rightarrow> 'k \<Rightarrow> error + jstring" where
  "decrypt P ct ivtext key =
     (case base64ToArrayBuffer P ct of
        Inl e \<Rightarrow> Inl e
      | Inr encryptedData \<Rightarrow>
          (case base64ToArrayBuffer P ivtext of
             Inl e \<Rightarrow> Inl e
           | Inr ivBuffer \<Rightarrow>
               (case aes_gcm_decrypt P key ivBuffer encryptedData of
                  None \<Rightarrow> Inl OperationError
                | Some decrypted \<Rightarrow> Inr (utf8_decode P decrypted))))"

text \<open>
  \<open>JSON.stringify\<close> of an object \<open>{ciphertext, iv}\<close>, and the reads
  \<open>data.ciphertext\<close>, \<open>data.iv\<close> of a parsed value. A read on \<open>null\<close> throws; on
  any other value that is not an object it yields \<open>undefined\<close>. What was read goes
  to \<open>atob\<close> as the string it coerces to.
\<close>

definition field_json :: "encrypted_field \<Rightarrow> json" where
  "field_json f = JObj [(lit ''ciphertext'', JStr (ciphertext f)), (lit ''iv'', JStr (iv f))]"

definition get_prop :: "json \<Rightarrow> jstring \<Rightarrow> error + json option" where
  "get_prop j name =
     (case j of
        JNull \<Rightarrow> Inl TypeError
      | JObj kvs \<Rightarrow> Inr (map_of kvs name)
      | _ \<Rightarrow> Inr None)"

definition get_text :: "'k platform \<Rightarrow> json \<Rightarrow> jstring \<Rightarrow> error + jstring" where
  "get_text P j name =
     (case get_prop j name of
        Inl e \<Rightarrow> Inl e
      | Inr None \<Rightarrow> Inr (lit ''undefined'')
      | Inr (Some v) \<Rightarrow> Inr (js_string (number_text P) v))"

definition parse_json :: "'k platform \<Rightarrow> jstring \<Rightarrow> error + json" where
  "parse_json P text = (case json_parse P text of None \<Rightarrow> Inl SyntaxError | Some j \<Rightarrow> Inr j)"

definition decrypt_parsed :: "'k platform \<Rightarrow> json \<Rightarrow> 'k \<Rightarrow> error + jstring" where
  "decrypt_parsed P j key =
     (case get_text P j (lit ''ciphertext'') of
        Inl e \<Rightarrow> Inl e
      | Inr ct \<Rightarrow>
          (case get_text P j (lit ''iv'') of
             Inl e \<Rightarrow> Inl e
           | Inr ivtext \<Rightarrow> decrypt P ct ivtext key))"

record analysis_data =
  userEmail :: jstring
  inputContent :: jstring
  analysisContext :: "json option"
  mlResult :: json

record encrypted_data =
  enc_userEmail :: jstring
  enc_inputContent :: jstring
  enc_analysisContext :: "jstring option"
  enc_mlResult :: jstring

text \<open>\<open>encryptAnalysisData\<close>; the four nonces of its four \<open>encrypt\<close> calls are
  arguments.\<close>

definition encryptAnalysisData ::
  "'k platform \<Rightarrow> analysis_data \<Rightarrow> 'k \<Rightarrow> bytes \<Rightarrow> bytes \<Rightarrow> bytes \<Rightarrow> bytes \<Rightarrow> encrypted_data" where
  "encryptAnalysisData P data key n1 n2 n3 n4 =
     (let encryptedEmail = encrypt P (userEmail data) key n1;
          encryptedContent = encrypt P (inputContent data) key n2;
          encryptedContext =
            encrypt P
              (case analysisContext data of
                 None \<Rightarrow> []
               | Some c \<Rightarrow> if js_truthy c then json_stringify P c else [])
              key n3;
          encryptedMlResult = encrypt P (json_stringify P (mlResult data)) key n4
      in \<lparr>enc_userEmail = json_stringify P (field_json encryptedEmail),
          enc_inputContent = json_stringify P (field_json encryptedContent),
          enc_analysisContext = Some (json_stringify P (field_json encryptedContext)),
          enc_mlResult = json_stringify P (field_json encryptedMlResult)\<rparr>)"

text \<open>The third promise of \<open>decryptAnalysisData\<close>: decrypt the context when the
  parsed pair is there and has a ciphertext, and parse the text when it is not empty.\<close>

definition decrypt_context :: "'k platform \<Rightarrow> json option \<Rightarrow> 'k \<Rightarrow> error + json option" where
  "decrypt_context P contextData key =
     (case contextData of
        None \<Rightarrow> Inr None
      | Some cd \<Rightarrow>
          if \<not> js_truthy cd then Inr None
          else (case get_prop cd (lit ''ciphertext'') of
                  Inl e \<Rightarrow> Inl e
                | Inr None \<Rightarrow> Inr None
                | Inr (Some c) \<Rightarrow>
                    if \<not> js_truthy c then Inr None
                    else (case decrypt_parsed P cd key of
                            Inl e \<Rightarrow> Inl e
                          | Inr text \<Rightarrow>
                              if text = [] then Inr None
                              else (case parse_json P text of
                                      Inl e \<Rightarrow> Inl e
                                    | Inr j \<Rightarrow> Inr (nullable j)))))"

text \<open>
  \<open>decryptAnalysisData\<close>. The four texts are parsed, then the four promises are
  started and awaited together. The function returns the record when nothing
  throws and all four promises fulfil, and rejects otherwise, which is \<open>None\<close>:
  with which of several rejections \<open>Promise.all\<close> rejects depends on the order in
  which they settle, and no caller in the model looks at the error.
\<close>

definition decryptAnalysisData ::
  "'k platform \<Rightarrow> encrypted_data \<Rightarrow> 'k \<Rightarrow> analysis_data option" where
  "decryptAnalysisData P encrypted key =
     (case (parse_json P (enc_userEmail encrypted),
            parse_json P (enc_inputContent encrypted),
            (if truthy_str (enc_analysisContext encrypted)
             then map_sum id Some (parse_json P (the (enc_analysisContext encrypted)))
             else Inr None),
            parse_json P (enc_mlResult encrypted)) of
        (Inr emailData, Inr contentData, Inr contextData, Inr mlResultData) \<Rightarrow>
          (case (decrypt_parsed P emailData key,
                 decrypt_parsed P contentData key,
                 decrypt_context P contextData key,
                 (case decrypt_parsed P mlResultData key of
                    Inl e \<Rightarrow> Inl e
                  | Inr mlText \<Rightarrow> parse_json P mlText)) of
             (Inr email, Inr content, Inr ctx, Inr ml) \<Rightarrow>
               Some \<lparr>userEmail = email, inputContent = content,
                     analysisContext = ctx, mlResult = ml\<rparr>
           | _ \<Rightarrow> None)
      | _ \<Rightarrow> None)"

definition encryptKeyMaterial :: "'k platform \<Rightarrow> jstring \<Rightarrow> 'k \<Rightarrow> bytes \<Rightarrow> jstring" where
  "encryptKeyMaterial P plaintext key nonce = json_stringify P (field_json (encrypt P plaintext key nonce))"

definition decryptKeyMaterial :: "'k platform \<Rightarrow> jstring \<Rightarrow> 'k \<Rightarrow> error + jstring" where
  "decryptKeyMaterial P encrypted key =
     (case parse_json P encrypted of
        Inl e \<Rightarrow> Inl e
      | Inr data \<Rightarrow> decrypt_parsed P data key)"

section \<open>The local key-material store (IndexedDB)\<close>

text \<open>
  The object store \<open>encryptionKeys\<close>, keyed by \<open>userSub\<close>. A field that an object
  lacks is \<open>None\<close>; \<open>new Date().toISOString()\<close> is the time it formats. How a call
  fares is an argument: the database does not open, so \<open>initDB\<close> rejects; or the
  request of the call fails; or it works. The two functions that read and then
  write take a second argument, whether the write succeeds.
\<close>

datatype idb_outcome = Works | OpenFails | RequestFails

record key_record =
  encryptedKeyMaterial :: jstring
  salt :: "jstring option"
  createdAt :: "int option"
  updatedAt :: "int option"

type_synonym idb = "jstring \<rightharpoonup> key_record"

definition storeEncryptedKey ::
  "idb_outcome \<Rightarrow> int \<Rightarrow> idb \<Rightarrow> jstring \<Rightarrow> jstring \<Rightarrow> error + idb" where
  "storeEncryptedKey outcome t store sub material =
     (case outcome of
        OpenFails \<Rightarrow> Inl OpenDBFailed
      | RequestFails \<Rightarrow> Inl StoreKeyFailed
      | Works \<Rightarrow>
          Inr (store(sub \<mapsto>
                 \<lparr>encryptedKeyMaterial = material, salt = None,
                  createdAt = Some t, updatedAt = None\<rparr>)))"

definition getEncryptedKey :: "idb_outcome \<Rightarrow> idb \<Rightarrow> jstring \<Rightarrow> error + jstring option" where
  "getEncryptedKey outcome store sub =
     (case outcome of
        OpenFails \<Rightarrow> Inl OpenDBFailed
      | RequestFails \<Rightarrow> Inl RetrieveKeyFailed
      | Works \<Rightarrow>
          Inr (case store sub of
                 None \<Rightarrow> None
               | Some result \<Rightarrow> Some (encryptedKeyMaterial result)))"

definition clearEncryptedKey ::
  "idb_outcome \<Rightarrow> bool \<Rightarrow> int \<Rightarrow> idb \<Rightarrow> jstring \<Rightarrow> error + idb" where
  "clearEncryptedKey outcome updateOk t store sub =
     (case outcome of
        OpenFails \<Rightarrow> Inl OpenDBFailed
      | RequestFails \<Rightarrow> Inl RetrieveForClearFailed
      | Works \<Rightarrow>
          (case store sub of
             None \<Rightarrow> Inr store
           | Some existing \<Rightarrow>
               if \<not> updateOk then Inl ClearKeyFailed
               else Inr (store(sub \<mapsto>
                      \<lparr>encryptedKeyMaterial = [],
                       salt = Some (if truthy_str (salt existing) then the (salt existing) else []),
                       createdAt = Some (case createdAt existing of Some c \<Rightarrow> c | None \<Rightarrow> t),
                       updatedAt = Some t\<rparr>))))"

definition hasEncryptedKey :: "idb_outcome \<Rightarrow> idb \<Rightarrow> jstring \<Rightarrow> error + bool" where
  "hasEncryptedKey outcome store sub =
     (case getEncryptedKey outcome store sub of
        Inl e \<Rightarrow> Inl e
      | Inr key \<Rightarrow> Inr (key \<noteq> None))"

definition storeSalt ::
  "idb_outcome \<Rightarrow> bool \<Rightarrow> int \<Rightarrow> idb \<Rightarrow> jstring \<Rightarrow> jstring \<Rightarrow> error + idb" where
  "storeSalt outcome updateOk t store sub s =
     (case outcome of
        OpenFails \<Rightarrow> Inl OpenDBFailed
      | RequestFails \<Rightarrow> Inl RetrieveForSaltFailed
      | Works \<Rightarrow>
          if \<not> updateOk then Inl StoreSaltFailed
          else Inr (store(sub \<mapsto>
                 \<lparr>encryptedKeyMaterial =
                    (case store sub of None \<Rightarrow> [] | Some existing \<Rightarrow> encryptedKeyMaterial existing),
                  salt = Some s,
                  createdAt = Some (case store sub of
                                      None \<Rightarrow> t
                                    | Some existing \<Rightarrow>
                                        (case createdAt existing of Some c \<Rightarrow> c | None \<Rightarrow> t)),
                  updatedAt = Some t\<rparr>)))"

section \<open>The encryption session (EncryptionContext)\<close>

text \<open>
  The state of the provider: its five \<open>useState\<close> cells and the ref
  \<open>hasCheckedSetupRef\<close>, together with what its operations reach outside it: the
  device's object store and the lines that \<open>console.error\<close> prints.
\<close>

record 'k state =
  isSetup :: bool
  isUnlocked :: bool
  isLoading :: bool
  encryptionKey :: "'k option"
  userSalt :: "jstring option"
  hasCheckedSetup :: bool
  db :: idb
  console :: "string list"

text \<open>
  A \<open>fetch\<close> with its token: \<open>Throws m\<close> when the token provider, \<open>fetch\<close> or
  \<open>response.json()\<close> rejects, with the \<open>message\<close> of the value it rejects with
  when that is a string, and \<open>None\<close> when the value has no such message, so that
  \<open>error.message.includes\<close> throws; \<open>NotOk\<close> when \<open>response.ok\<close> is false;
  \<open>Ok\<close> with the parsed body otherwise.
\<close>

datatype 'a response = Throws "jstring option" | NotOk | Ok 'a

record status_data =
  hasSalt :: bool
  hasAnalyses :: bool
  status_salt :: "jstring option"

text \<open>
  What one operation receives from outside: the identity provider's answer, the
  collaborator's responses (a missing \<open>items\<close> is the empty list), how the read
  and the write of the key material fare, the clock and the random bytes drawn.
\<close>

record env =
  isAuthenticated :: bool
  userSub :: "jstring option"
  keyRead :: idb_outcome
  keyWrite :: idb_outcome
  statusResponse :: "status_data response"
  analysesResponse :: "encrypted_data list response"
  saveSaltResponse :: "unit response"
  now :: int
  randomSalt :: bytes
  randomIv :: bytes

definition no_status :: status_data where
  "no_status = \<lparr>hasSalt = False, hasAnalyses = False, status_salt = None\<rparr>"

definition log_error :: "string \<Rightarrow> 'k state \<Rightarrow> 'k state" where
  "log_error line s = s\<lparr>console := console s @ [line]\<rparr>"

definition getEncryptionStatus :: "env \<Rightarrow> 'k state \<Rightarrow> status_data \<times> 'k state" where
  "getEncryptionStatus e s =
     (if \<not> truthy_str (userSub e) then (no_status, s)
      else (case statusResponse e of
              Ok data \<Rightarrow>
                (\<lparr>hasSalt = hasSalt data, hasAnalyses = hasAnalyses data,
                  status_salt = (if truthy_str (status_salt data) then status_salt data else None)\<rparr>,
                 if truthy_str (status_salt data) then s\<lparr>userSalt := status_salt data\<rparr> else s)
            | NotOk \<Rightarrow> (no_status, s)
            | Throws m \<Rightarrow> (no_status, log_error ''Failed to fetch encryption status:'' s)))"

text \<open>\<open>checkSetup\<close>, the body of the first effect. The state it reads is the one of
  the render that started it.\<close>

definition checkSetup :: "env \<Rightarrow> 'k state \<Rightarrow> 'k state" where
  "checkSetup e s =
     (if \<not> isAuthenticated e \<or> \<not> truthy_str (userSub e)
      then s\<lparr>isSetup := False, isUnlocked := False, isLoading := False, hasCheckedSetup := False\<rparr>
      else if isUnlocked s \<and> encryptionKey s \<noteq> None then s
      else if hasCheckedSetup s \<and> isSetup s then s
      else (case hasEncryptedKey (keyRead e) (db s) (the (userSub e)) of
              Inl err \<Rightarrow>
                (log_error ''Failed to check encryption setup:'' s)
                  \<lparr>isSetup := (if \<not> isUnlocked s then False else isSetup s), isLoading := False\<rparr>
            | Inr True \<Rightarrow>
                s\<lparr>isSetup := True, hasCheckedSetup := True,
                  isUnlocked := (if encryptionKey s = None then False else isUnlocked s),
                  encryptionKey := (if encryptionKey s = None then None else encryptionKey s),
                  isLoading := False\<rparr>
            | Inr False \<Rightarrow>
                (case getEncryptionStatus e s of
                   (status, s1) \<Rightarrow>
                     if hasSalt status
                     then s1\<lparr>userSalt := (if truthy_str (status_salt status)
                                           then status_salt status else userSalt s1),
                             isSetup := True, hasCheckedSetup := True,
                             isUnlocked := (if encryptionKey s = None then False else isUnlocked s),
                             isLoading := False\<rparr>
                     else if hasAnalyses status
                     then (log_error ''User has analyses but no salt found - data inconsistency'' s1)
                            \<lparr>isSetup := False, isUnlocked := False, isLoading := False\<rparr>
                     else s1\<lparr>isSetup := False, isUnlocked := False, isLoading := False\<rparr>)))"

definition getSalt :: "env \<Rightarrow> 'k state \<Rightarrow> jstring option \<times> 'k state" where
  "getSalt e s =
     (if truthy_str (userSalt s) then (userSalt s, s)
      else if \<not> truthy_str (userSub e) then (None, s)
      else (case getEncryptionStatus e s of (status, s1) \<Rightarrow> (status_salt status, s1)))"

definition saveSalt :: "env \<Rightarrow> jstring \<Rightarrow> 'k state \<Rightarrow> (error + unit) \<times> 'k state" where
  "saveSalt e s64 s =
     (if \<not> truthy_str (userSub e) then (Inl UserNotAuthenticated, s)
      else (case saveSaltResponse e of
              Ok u \<Rightarrow> (Inr (), s\<lparr>userSalt := Some s64\<rparr>)
            | NotOk \<Rightarrow> (Inl SaveSaltFailed, log_error ''Failed to save salt:'' s)
            | Throws m \<Rightarrow> (Inl (Thrown m), log_error ''Failed to save salt:'' s)))"

text \<open>The object \<open>{timestamp: Date.now(), userSub}\<close> and its \<open>JSON.stringify\<close>.\<close>

definition verification_payload :: "int \<Rightarrow> jstring \<Rightarrow> json" where
  "verification_payload t sub =
     JObj [(lit ''timestamp'', JNum (of_int t)), (lit ''userSub'', JStr sub)]"

definition verificationData :: "'k platform \<Rightarrow> int \<Rightarrow> jstring \<Rightarrow> jstring" where
  "verificationData P t sub = json_stringify P (verification_payload t sub)"

definition setupEncryption ::
  "'k platform \<Rightarrow> env \<Rightarrow> jstring \<Rightarrow> 'k state \<Rightarrow> (error + unit) \<times> 'k state" where
  "setupEncryption P e passphrase s =
     (if \<not> truthy_str (userSub e) then (Inl UserNotAuthenticated, s)
      else
        (let sub = the (userSub e);
             saltBase64 = btoa P (map fromCharCode (randomSalt e));
             key = deriveKey P passphrase (randomSalt e);
             material =
               encryptKeyMaterial P (verificationData P (now e) sub) key (randomIv e)
         in (case storeEncryptedKey (keyWrite e) (now e) (db s) sub material of
               Inl err \<Rightarrow>
                 (Inl err, (log_error ''Failed to setup encryption:'' s)\<lparr>isLoading := False\<rparr>)
             | Inr db' \<Rightarrow>
                 (case saveSalt e saltBase64 (s\<lparr>db := db'\<rparr>) of
                    (Inl err, s1) \<Rightarrow>
                      (Inl err, (log_error ''Failed to setup encryption:'' s1)\<lparr>isLoading := False\<rparr>)
                  | (Inr u, s1) \<Rightarrow>
                      (Inr (),
                       s1\<lparr>encryptionKey := Some key, userSalt := Some saltBase64,
                          isSetup := True, isUnlocked := True, hasCheckedSetup := True,
                          isLoading := False\<rparr>)))))"

text \<open>
  The two verification blocks of \<open>unlockEncryption\<close>. Without local key material
  (lines 273 to 328) the first record of the page is decrypted, and the new key
  material is stored; the inner \<open>catch\<close> turns every failure of its block, of the
  decryption and of the store alike, into the invalid-passphrase error. The outer
  \<open>catch\<close> reads \<open>error.message.includes('Invalid passphrase')\<close> on whatever was
  thrown: a value without a message makes that read throw a \<open>TypeError\<close>, an
  error whose message includes the words is thrown again as it is, and any other
  is replaced. With local key material (lines 331 to 340) it is decrypted and
  parsed and its \<open>userSub\<close> compared; the \<open>catch\<close> turns every failure into the
  invalid-passphrase error.
\<close>

definition verify_records :: "'k platform \<Rightarrow> env \<Rightarrow> idb \<Rightarrow> jstring \<Rightarrow> 'k \<Rightarrow> error + idb" where
  "verify_records P e store sub key =
     (let stored = storeEncryptedKey (keyWrite e) (now e) store sub
                     (encryptKeyMaterial P (verificationData P (now e) sub) key (randomIv e));
          attempt =
            (case analysesResponse e of
               Throws m \<Rightarrow> Inl (Thrown m)
             | NotOk \<Rightarrow> Inl FetchVerificationFailed
             | Ok items \<Rightarrow>
                 (case items of
                    encryptedRecord # rest \<Rightarrow>
                      (case decryptAnalysisData P encryptedRecord key of
                         None \<Rightarrow> Inl InvalidPassphrase
                       | Some plain \<Rightarrow>
                           (case stored of
                              Inl decryptError \<Rightarrow> Inl InvalidPassphrase
                            | Inr store' \<Rightarrow> Inr store'))
                  | [] \<Rightarrow> stored))
      in (case attempt of
            Inl err \<Rightarrow>
              (case message err of
                 None \<Rightarrow> Inl TypeError
               | Some m \<Rightarrow>
                   if str_includes m (lit ''Invalid passphrase'') then Inl err
                   else Inl VerifyFailed)
          | Inr store' \<Rightarrow> Inr store'))"

definition verify_blob :: "'k platform \<Rightarrow> jstring \<Rightarrow> jstring \<Rightarrow> 'k \<Rightarrow> error + unit" where
  "verify_blob P material sub key =
     (let attempt =
            (case decryptKeyMaterial P material key of
               Inl err \<Rightarrow> Inl err
             | Inr decrypted \<Rightarrow>
                 (case parse_json P decrypted of
                    Inl err \<Rightarrow> Inl err
                  | Inr data \<Rightarrow>
                      (case get_prop data (lit ''userSub'') of
                         Inl err \<Rightarrow> Inl err
                       | Inr None \<Rightarrow> Inl InvalidKeyMaterial
                       | Inr (Some v) \<Rightarrow>
                           if \<not> js_truthy v \<or> v \<noteq> JStr sub then Inl InvalidKeyMaterial
                           else Inr ())))
      in (case attempt of
            Inl err \<Rightarrow> Inl InvalidPassphrase
          | Inr u \<Rightarrow> Inr ()))"

definition unlock_failed :: "error \<Rightarrow> 'k state \<Rightarrow> (error + unit) \<times> 'k state" where
  "unlock_failed err s =
     (Inl err, (log_error ''Failed to unlock encryption:'' s)\<lparr>isLoading := False\<rparr>)"

text \<open>The salt of \<open>unlockEncryption\<close> (lines 253 to 259): the one in memory, else
  the one \<open>getSalt\<close> fetches.\<close>

definition unlock_salt :: "env \<Rightarrow> 'k state \<Rightarrow> jstring option \<times> 'k state" where
  "unlock_salt e s = (if truthy_str (userSalt s) then (userSalt s, s) else getSalt e s)"

definition unlockEncryption ::
  "'k platform \<Rightarrow> env \<Rightarrow> jstring \<Rightarrow> 'k state \<Rightarrow> (error + unit) \<times> 'k state" where
  "unlockEncryption P e passphrase s =
     (if \<not> truthy_str (userSub e) then (Inl UserNotAuthenticated, s)
      else
        (let sub = the (userSub e) in
         (case unlock_salt e s of
            (found, s1) \<Rightarrow>
              if \<not> truthy_str found then unlock_failed SaltNotFound s1
              else
                (let saltBase64 = the found in
                 (case atob P saltBase64 of
                    None \<Rightarrow> unlock_failed InvalidCharacterError s1
                  | Some binary \<Rightarrow>
                      (let key = deriveKey P passphrase (map charCodeAt binary) in
                       (case getEncryptedKey (keyRead e) (db s1) sub of
                          Inl err \<Rightarrow> unlock_failed err s1
                        | Inr material \<Rightarrow>
                            (case (if \<not> truthy_str material
                                   then verify_records P e (db s1) sub key
                                   else (case verify_blob P (the material) sub key of
                                           Inl err \<Rightarrow> Inl err
                                         | Inr u \<Rightarrow> Inr (db s1))) of
                               Inl err \<Rightarrow> unlock_failed err s1
                             | Inr db' \<Rightarrow>
                                 (Inr (),
                                  s1\<lparr>db := db', encryptionKey := Some key,
                                     userSalt := Some saltBase64, isSetup := True,
                                     isUnlocked := True, hasCheckedSetup := True,
                                     isLoading := False\<rparr>)))))))))"

definition lockEncryption :: "'k state \<Rightarrow> 'k state" where
  "lockEncryption s = s\<lparr>encryptionKey := None, isUnlocked := False, hasCheckedSetup := False\<rparr>"

text \<open>
  The second effect, \<open>if (!isAuthenticated) lockEncryption()\<close>, and the pass that
  runs when \<open>isAuthenticated\<close> changes: both effects, in the order of their
  declaration. When only the identity changes, the first effect runs alone, which
  for an authenticated user is the same.
\<close>

definition lockOnLogout :: "env \<Rightarrow> 'k state \<Rightarrow> 'k state" where
  "lockOnLogout e s = (if \<not> isAuthenticated e then lockEncryption s else s)"

definition authEffects :: "env \<Rightarrow> 'k state \<Rightarrow> 'k state" where
  "authEffects e s = lockOnLogout e (checkSetup e s)"

section \<open>The lockout tracker (useRateLimitStatus)\<close>

record RateLimitStatus =
  isLocked :: bool
  remainingSeconds :: int
  attempts :: int
  lockedUntil :: "int option"

text \<open>
  An item of \<open>localStorage\<close> under \<open>lockout_\<close> followed by \<open>userSub\<close>: the empty
  string, which \<open>if (stored)\<close> passes over; a text on which \<open>JSON.parse\<close> or the
  read of its fields throws; or the fields \<open>lockedUntil\<close>, \<open>attempts\<close> and
  \<open>timestamp\<close> of what it parses to. The body of the collaborator's answer has the
  first two.
\<close>

datatype lockout_item = Empty | Unparseable | Parsed "int option" "int option" "int option"

record attempts_data =
  data_lockedUntil :: "int option"
  data_attempts :: "int option"

record tracker =
  status :: RateLimitStatus
  lastCheckTime :: int
  localStorage :: "jstring \<rightharpoonup> lockout_item"
  dispatched :: "jstring list"

text \<open>The readings of \<open>Date.now()\<close> in one call, in the order of the source: for
  the throttle, in the cache branch, for \<open>isLocked\<close>, for \<open>remainingSeconds\<close> and
  for the item's \<open>timestamp\<close>.\<close>

record clock =
  t_throttle :: int
  t_cache :: int
  t_locked :: int
  t_remaining :: int
  t_stamp :: int

definition MIN_CHECK_INTERVAL :: int where
  "MIN_CHECK_INTERVAL = 1000"

text \<open>\<open>Math.ceil(ms / 1000)\<close> on an integer.\<close>

definition ceil_seconds :: "int \<Rightarrow> int" where
  "ceil_seconds ms = - ((- ms) div 1000)"

definition unlocked_status :: RateLimitStatus where
  "unlocked_status = \<lparr>isLocked = False, remainingSeconds = 0, attempts = 0, lockedUntil = None\<rparr>"

text \<open>
  \<open>checkStatus\<close>. Its second half (lines 55 to 112), the question to the
  collaborator, is \<open>checkBackend\<close>; the first half is the throttle and the
  look into \<open>localStorage\<close>, from which the function returns when the item
  parses. A dispatched \<open>rateLimitUpdate\<close> event is recorded with its
  \<open>userSub\<close>.
\<close>

definition checkBackend ::
  "jstring \<Rightarrow> clock \<Rightarrow> attempts_data response \<Rightarrow> tracker \<Rightarrow> tracker" where
  "checkBackend sub c remote st =
     (case remote of
        Ok data \<Rightarrow>
          (let locked = (truthy_num (data_lockedUntil data)
                         \<and> t_locked c < the (data_lockedUntil data));
               remaining = (if truthy_num (data_lockedUntil data)
                            then ceil_seconds (the (data_lockedUntil data) - t_remaining c)
                            else 0);
               persist = (locked \<or> (truthy_num (data_attempts data) \<and> the (data_attempts data) > 0))
           in st\<lparr>status :=
                    \<lparr>isLocked = locked, remainingSeconds = remaining,
                     attempts = (if truthy_num (data_attempts data) then the (data_attempts data) else 0),
                     lockedUntil = (if truthy_num (data_lockedUntil data)
                                    then data_lockedUntil data else None)\<rparr>,
                  localStorage :=
                    (if persist
                     then (localStorage st)(sub \<mapsto>
                            Parsed (data_lockedUntil data) (data_attempts data) (Some (t_stamp c)))
                     else (localStorage st)(sub := None)),
                  dispatched := (if persist then dispatched st @ [sub] else dispatched st)\<rparr>)
      | NotOk \<Rightarrow> st\<lparr>status := unlocked_status\<rparr>
      | Throws m \<Rightarrow> st\<lparr>status := unlocked_status\<rparr>)"

definition checkStatus ::
  "jstring option \<Rightarrow> bool \<Rightarrow> clock \<Rightarrow> attempts_data response \<Rightarrow> tracker \<Rightarrow> tracker" where
  "checkStatus sub hasTokenFn c remote st =
     (if \<not> truthy_str sub \<or> \<not> hasTokenFn then st
      else if t_throttle c - lastCheckTime st < MIN_CHECK_INTERVAL then st
      else
        (let st1 = st\<lparr>lastCheckTime := t_throttle c\<rparr> in
         (case localStorage st1 (the sub) of
            Some (Parsed lu att ts) \<Rightarrow>
              (let remaining = (if truthy_num lu then max 0 (the lu - t_cache c) else 0)
               in st1\<lparr>status :=
                        \<lparr>isLocked = (remaining > 0),
                         remainingSeconds = ceil_seconds remaining,
                         attempts = (if truthy_num att then the att else 0),
                         lockedUntil = (if truthy_num lu then lu else None)\<rparr>\<rparr>)
          | Some Unparseable \<Rightarrow>
              checkBackend (the sub) c remote
                (st1\<lparr>localStorage := (localStorage st1)((the sub) := None)\<rparr>)
          | Some Empty \<Rightarrow> checkBackend (the sub) c remote st1
          | None \<Rightarrow> checkBackend (the sub) c remote st1)))"

section \<open>What the platform is assumed to do\<close>

text \<open>
  The laws of the primitives that the round trip of a record rests on. Under a
  nonce of \<open>IV_LENGTH\<close> bytes, AES-GCM decrypts what it encrypted under the same
  key and nonce, and its output, which ends with the authentication tag, is never
  empty. The text codec returns an encodable string; on a string with a lone
  surrogate it does not, the encoder having replaced the surrogate, nor on one
  that starts with a byte order mark, which the decoder drops. \<open>atob\<close> inverts
  \<open>btoa\<close> on the strings that the source builds from bytes, and \<open>btoa\<close> of such a
  string that is not empty is not empty. A JSON-safe value survives
  \<open>JSON.stringify\<close> and \<open>JSON.parse\<close>, and its text is not empty and is
  encodable (\<open>JSON.stringify\<close> escapes a lone surrogate, and no JSON text starts
  with a byte order mark). An object of two base64 texts is JSON-safe.
\<close>

definition platform_ok :: "'k platform \<Rightarrow> bool" where
  "platform_ok P \<longleftrightarrow>
     (\<forall>k n d. length n = IV_LENGTH \<longrightarrow>
        aes_gcm_decrypt P k n (aes_gcm_encrypt P k n d) = Some d \<and>
        aes_gcm_encrypt P k n d \<noteq> []) \<and>
     (\<forall>s. encodable s \<longrightarrow> utf8_decode P (utf8_encode P s) = s) \<and>
     (\<forall>b. atob P (btoa P (map fromCharCode b)) = Some (map fromCharCode b)) \<and>
     (\<forall>b. b \<noteq> [] \<longrightarrow> btoa P (map fromCharCode b) \<noteq> []) \<and>
     (\<forall>j. json_safe P j \<longrightarrow>
        json_parse P (json_stringify P j) = Some j \<and> json_stringify P j \<noteq> [] \<and>
        encodable (json_stringify P j)) \<and>
     (\<forall>x y. json_safe P
        (field_json \<lparr>ciphertext = arrayBufferToBase64 P x, iv = arrayBufferToBase64 P y\<rparr>))"

text \<open>
  A valid record: the two texts are encodable strings, the context is absent or an
  object (any truthy value does), and the values that are serialised are
  JSON-safe.
\<close>

definition valid_record :: "'k platform \<Rightarrow> analysis_data \<Rightarrow> bool" where
  "valid_record P r \<longleftrightarrow>
     encodable (userEmail r) \<and> encodable (inputContent r) \<and>
     json_safe P (mlResult r) \<and>
     (case analysisContext r of None \<Rightarrow> True | Some c \<Rightarrow> js_truthy c \<and> json_safe P c)"

section \<open>A small platform to run the model on\<close>

text \<open>
  A platform that satisfies the laws and that the simplifier can run. The key is
  one byte, put before the data as its tag. The text encoder replaces every lone
  surrogate by U+FFFD, as \<open>TextEncoder\<close> does, and writes each code unit as two
  bytes; the decoder reads them back and drops a byte order mark at the start, as
  \<open>TextDecoder\<close> does. Base64 is the identity. The JSON of an object \<open>{ciphertext, iv}\<close> is the
  letter E, the length of the ciphertext in strokes, a bar and the two texts; that
  of an object \<open>{timestamp, userSub}\<close> with a natural number is the letter V, the
  number in strokes, a bar and the identity; two more values have a text of their
  own. Every number is spelled 0.
\<close>

definition example_ml :: json where
  "example_ml =
     JObj [(lit ''is_phishing'', JBool True), (lit ''phishing_probability'', JNum (9 / 10))]"

definition example_context :: json where
  "example_context = JObj [(lit ''source'', JStr (lit ''email''))]"

definition replacement :: "16 word" where
  "replacement = 0xFFFD"

fun toy_sanitize :: "jstring \<Rightarrow> jstring" where
  "toy_sanitize [] = []"
| "toy_sanitize [u] = [if high_surrogate u \<or> low_surrogate u then replacement else u]"
| "toy_sanitize (u # l # rest) =
     (if high_surrogate u
      then (if low_surrogate l then u # l # toy_sanitize rest
            else replacement # toy_sanitize (l # rest))
      else (if low_surrogate u then replacement else u) # toy_sanitize (l # rest))"

definition two_bytes :: "16 word \<Rightarrow> bytes" where
  "two_bytes u = [word_of_nat (unat u div 256), word_of_nat (unat u mod 256)]"

definition toy_encode :: "jstring \<Rightarrow> bytes" where
  "toy_encode s = concat (map two_bytes (toy_sanitize s))"

fun code_units :: "bytes \<Rightarrow> jstring" where
  "code_units (hi # lo # rest) = word_of_nat (unat hi * 256 + unat lo) # code_units rest"
| "code_units [b] = []"
| "code_units [] = []"

definition toy_decode :: "bytes \<Rightarrow> jstring" where
  "toy_decode bs =
     (case code_units bs of
        [] \<Rightarrow> []
      | u # rest \<Rightarrow> if u = 0xFEFF then rest else u # rest)"

definition stroke :: "16 word" where
  "stroke = code_unit (CHR ''+'')"

definition bar :: "16 word" where
  "bar = code_unit (CHR ''|'')"

fun field_of :: "json \<Rightarrow> (jstring \<times> jstring) option" where
  "field_of (JObj [(k1, JStr a), (k2, JStr b)]) =
     (if k1 = lit ''ciphertext'' \<and> k2 = lit ''iv'' then Some (a, b) else None)"
| "field_of j = None"

fun payload_of :: "json \<Rightarrow> (nat \<times> jstring) option" where
  "payload_of (JObj [(k1, JNum q), (k2, JStr u)]) =
     (if k1 = lit ''timestamp'' \<and> k2 = lit ''userSub'' \<and> q = of_nat (nat \<lfloor>q\<rfloor>)
      then Some (nat \<lfloor>q\<rfloor>, u) else None)"
| "payload_of j = None"

definition toy_stringify :: "json \<Rightarrow> jstring" where
  "toy_stringify j =
     (case field_of j of
        Some (a, b) \<Rightarrow> code_unit (CHR ''E'') # replicate (length a) stroke @ bar # a @ b
      | None \<Rightarrow>
          (case payload_of j of
             Some (n, u) \<Rightarrow> code_unit (CHR ''V'') # replicate n stroke @ bar # u
           | None \<Rightarrow>
               if j = example_ml then lit ''M''
               else if j = example_context then lit ''C''
               else lit ''?''))"

definition toy_parse :: "jstring \<Rightarrow> json option" where
  "toy_parse text =
     (case text of
        [] \<Rightarrow> None
      | c # rest \<Rightarrow>
          (let n = length (takeWhile (\<lambda>x. x = stroke) rest);
               body = drop (Suc n) rest
           in if c = code_unit (CHR ''E'') then
                (if length body < n \<or> length rest \<le> n then None
                 else Some (field_json \<lparr>ciphertext = take n body, iv = drop n body\<rparr>))
              else if c = code_unit (CHR ''V'') then
                (if length rest \<le> n then None
                 else Some (verification_payload (int n) body))
              else if text = lit ''M'' then Some example_ml
              else if text = lit ''C'' then Some example_context
              else None))"

definition toy_safe :: "json \<Rightarrow> bool" where
  "toy_safe j \<longleftrightarrow>
     (case field_of j of
        Some (a, b) \<Rightarrow> well_formed (a @ b)
      | None \<Rightarrow>
          (case payload_of j of
             Some (n, u) \<Rightarrow> well_formed u
           | None \<Rightarrow> j = example_ml \<or> j = example_context))"

definition toy_key :: "jstring \<Rightarrow> bytes \<Rightarrow> nat \<Rightarrow> 8 word" where
  "toy_key passphrase bs n = word_of_nat (length passphrase + length bs)"

definition toy_decrypt :: "8 word \<Rightarrow> bytes \<Rightarrow> bytes \<Rightarrow> bytes option" where
  "toy_decrypt k n c =
     (case c of [] \<Rightarrow> None | t # d \<Rightarrow> if t = k then Some d else None)"

definition toy :: "8 word platform" where
  "toy = \<lparr>pbkdf2 = toy_key,
          aes_gcm_encrypt = (\<lambda>k n d. k # d),
          aes_gcm_decrypt = toy_decrypt,
          utf8_encode = toy_encode,
          utf8_decode = toy_decode,
          btoa = (\<lambda>s. s),
          atob = Some,
          json_stringify = toy_stringify,
          json_parse = toy_parse,
          json_safe = toy_safe,
          number_text = (\<lambda>q. lit ''0'')\<rparr>"

section \<open>Example sessions\<close>

text \<open>
  A nonce of one repeated byte; a user, her salt, her passphrase and another one,
  and the keys that the small platform derives from them; the key material that setup stored at time 1000; her
  session when the provider mounts, when it is locked and when it is unlocked, and
  her session on a device that has no key material yet; a record of hers, one
  whose e-mail has a lone surrogate and one whose e-mail starts with a byte order
  mark; and what the outside answers.
\<close>

definition nonce :: "8 word \<Rightarrow> bytes" where
  "nonce b = replicate IV_LENGTH b"

definition alice :: jstring where
  "alice = lit ''auth0|alice''"

definition alice_salt :: jstring where
  "alice_salt = lit ''c2FsdA==''"

definition correct_passphrase :: jstring where
  "correct_passphrase = lit ''correct-horse-battery''"

definition wrong_passphrase :: jstring where
  "wrong_passphrase = lit ''wrong-passphrase''"

definition alice_key :: "8 word" where
  "alice_key = deriveKey toy correct_passphrase (map charCodeAt alice_salt)"

definition wrong_key :: "8 word" where
  "wrong_key = deriveKey toy wrong_passphrase (map charCodeAt alice_salt)"

definition alice_material :: jstring where
  "alice_material = encryptKeyMaterial toy (verificationData toy 1000 alice) alice_key (nonce 1)"

definition alice_store :: idb where
  "alice_store =
     [alice \<mapsto> \<lparr>encryptedKeyMaterial = alice_material, salt = Some alice_salt,
                  createdAt = Some 1000, updatedAt = None\<rparr>]"

definition initial_state :: "8 word state" where
  "initial_state =
     \<lparr>isSetup = False, isUnlocked = False, isLoading = True, encryptionKey = None,
      userSalt = None, hasCheckedSetup = False, db = Map.empty, console = []\<rparr>"

definition locked_state :: "8 word state" where
  "locked_state =
     \<lparr>isSetup = True, isUnlocked = False, isLoading = False, encryptionKey = None,
      userSalt = Some alice_salt, hasCheckedSetup = True, db = alice_store, console = []\<rparr>"

definition unlocked_state :: "8 word state" where
  "unlocked_state =
     \<lparr>isSetup = True, isUnlocked = True, isLoading = False, encryptionKey = Some alice_key,
      userSalt = Some alice_salt, hasCheckedSetup = True, db = alice_store, console = []\<rparr>"

definition new_device_state :: "8 word state" where
  "new_device_state =
     \<lparr>isSetup = True, isUnlocked = False, isLoading = False, encryptionKey = None,
      userSalt = Some alice_salt, hasCheckedSetup = True, db = Map.empty, console = []\<rparr>"

definition example_record :: analysis_data where
  "example_record =
     \<lparr>userEmail = lit ''alice@example.com'', inputContent = lit ''Click here to verify'',
      analysisContext = None, mlResult = example_ml\<rparr>"

definition broken_record :: analysis_data where
  "broken_record = example_record\<lparr>userEmail := [code_unit (CHR ''a''), 0xD800, code_unit (CHR ''b'')]\<rparr>"

definition marked_record :: analysis_data where
  "marked_record = example_record\<lparr>userEmail := [0xFEFF, code_unit (CHR ''a'')]\<rparr>"

definition alice_record :: encrypted_data where
  "alice_record = encryptAnalysisData toy example_record alice_key (nonce 4) (nonce 5) (nonce 6) (nonce 7)"

definition signed_in :: env where
  "signed_in =
     \<lparr>isAuthenticated = True, userSub = Some alice, keyRead = Works, keyWrite = Works,
      statusResponse = Ok \<lparr>hasSalt = True, hasAnalyses = True, status_salt = Some alice_salt\<rparr>,
      analysesResponse = Ok [alice_record], saveSaltResponse = Ok (),
      now = 2000, randomSalt = replicate 16 9, randomIv = nonce 8\<rparr>"

definition signed_out :: env where
  "signed_out = signed_in\<lparr>isAuthenticated := False, userSub := None\<rparr>"


definition inconsistent :: env where
  "inconsistent =
     signed_in\<lparr>statusResponse := Ok \<lparr>hasSalt = False, hasAnalyses = True, status_salt = None\<rparr>\<rparr>"

definition fresh_account :: env where
  "fresh_account =
     signed_in\<lparr>statusResponse := Ok \<lparr>hasSalt = False, hasAnalyses = False, status_salt = None\<rparr>\<rparr>"





definition no_records :: env where
  "no_records = signed_in\<lparr>analysesResponse := Ok []\<rparr>"

definition write_fails :: env where
  "write_fails = signed_in\<lparr>keyWrite := RequestFails\<rparr>"

text \<open>
  The tracker when the hook mounts, a call in which every reading of the clock is
  the same instant, and the answer of the collaborator after the fifth failed
  attempt.
\<close>

definition initial_tracker :: tracker where
  "initial_tracker =
     \<lparr>status = unlocked_status, lastCheckTime = 0, localStorage = Map.empty, dispatched = []\<rparr>"

definition at_time :: "int \<Rightarrow> clock" where
  "at_time t = \<lparr>t_throttle = t, t_cache = t, t_locked = t, t_remaining = t, t_stamp = t\<rparr>"

definition locked_until :: "int \<Rightarrow> attempts_data response" where
  "locked_until T = Ok \<lparr>data_lockedUntil = Some T, data_attempts = Some 5\<rparr>"

definition reset_answer :: "attempts_data response" where
  "reset_answer = Ok \<lparr>data_lockedUntil = None, data_attempts = Some 0\<rparr>"

section \<open>Notions of the specification\<close>

text \<open>
  The invariant of the session: a key is in memory exactly when the session is
  unlocked. And the state LOCKED: encryption is set up, the session is not
  unlocked and holds no key.
\<close>

definition key_iff_unlocked :: "'k state \<Rightarrow> bool" where
  "key_iff_unlocked s \<longleftrightarrow> (encryptionKey s \<noteq> None) = isUnlocked s"

definition locked :: "'k state \<Rightarrow> bool" where
  "locked s \<longleftrightarrow> isSetup s \<and> \<not> isUnlocked s \<and> encryptionKey s = None"

text \<open>
  The user identity embedded in the payload of a verification blob, if the text is
  such a payload; and the acceptance of a blob by a key, in the words of the
  specification: the blob decrypts and the embedded identity is the user's.
\<close>

definition embedded_identity :: "'k platform \<Rightarrow> jstring \<Rightarrow> jstring option" where
  "embedded_identity P text =
     (case json_parse P text of
        Some (JObj kvs) \<Rightarrow>
          (case map_of kvs (lit ''userSub'') of
             Some (JStr u) \<Rightarrow> if u \<noteq> [] then Some u else None
           | _ \<Rightarrow> None)
      | _ \<Rightarrow> None)"

definition blob_accepts :: "'k platform \<Rightarrow> jstring \<Rightarrow> jstring \<Rightarrow> 'k \<Rightarrow> bool" where
  "blob_accepts P material sub key =
     (case decryptKeyMaterial P material key of
        Inl err \<Rightarrow> False
      | Inr text \<Rightarrow> embedded_identity P text = Some sub)"

text \<open>The device holds a usable verification blob for the user: a record whose key
  material is not blank.\<close>

definition local_blob :: "idb \<Rightarrow> jstring \<Rightarrow> jstring option" where
  "local_blob store sub =
     (case store sub of
        None \<Rightarrow> None
      | Some r \<Rightarrow> if encryptedKeyMaterial r = [] then None else Some (encryptedKeyMaterial r))"



text \<open>The record that a successful verification against the collaborator stores.\<close>

definition fresh_blob :: "'k platform \<Rightarrow> env \<Rightarrow> jstring \<Rightarrow> 'k \<Rightarrow> key_record" where
  "fresh_blob P e sub key =
     \<lparr>encryptedKeyMaterial = encryptKeyMaterial P (verificationData P (now e) sub) key (randomIv e),
      salt = None, createdAt = Some (now e), updatedAt = None\<rparr>"

section \<open>Strings\<close>

text \<open>The code units of a literal are below 256: none is a surrogate or the byte
  order mark, and two literals are equal when their characters are.\<close>

lemma of_char_small: "(of_char c :: nat) < 256"
proof -
  have "(of_char c :: nat) mod 256 < 256"
    by (rule mod_less_divisor) simp
  then show ?thesis
    by (simp only: of_char_mod_256)
qed

lemma unat_code_unit: "unat (code_unit c) = of_char c"
proof -
  have "(of_char c :: nat) < 65536"
    using of_char_small [of c] by linarith
  then have "of_char c mod 65536 = (of_char c :: nat)"
    by (rule mod_less)
  then show ?thesis
    by (simp add: code_unit_def unsigned_of_nat take_bit_eq_mod)
qed

lemma code_unit_eq [simp]: "code_unit c = code_unit d \<longleftrightarrow> c = d"
proof
  assume "code_unit c = code_unit d"
  then have "unat (code_unit c) = unat (code_unit d)" by simp
  then have "(of_char c :: nat) = of_char d" by (simp add: unat_code_unit)
  then show "c = d" by simp
qed simp

lemma lit_eq [simp]: "lit a = lit b \<longleftrightarrow> a = b"
  by (simp add: lit_def inj_map_eq_map inj_on_def)

lemma lit_empty [simp]: "lit s = [] \<longleftrightarrow> s = []" "[] = lit s \<longleftrightarrow> s = []"
  by (auto simp add: lit_def)

lemma length_lit [simp]: "length (lit s) = length s"
  by (simp add: lit_def)

lemma take_lit: "take n (lit s) = lit (take n s)"
  by (simp add: lit_def take_map)

lemma str_includes_lit [simp]: "str_includes (lit a) (lit b) = str_includes a b"
proof (induction a)
  case Nil
  then show ?case by (simp add: lit_def)
next
  case (Cons c cs)
  have "take (length b) (lit (c # cs)) = lit b \<longleftrightarrow> take (length b) (c # cs) = b"
    by (simp only: take_lit lit_eq)
  with Cons show ?case
    by (simp add: lit_def)
qed

lemma plain_code_unit: "\<not> high_surrogate (code_unit c)" "\<not> low_surrogate (code_unit c)"
proof -
  have "\<not> 55296 \<le> (of_char c :: nat)" and "\<not> 56320 \<le> (of_char c :: nat)"
    using of_char_small [of c] by linarith+
  then show "\<not> high_surrogate (code_unit c)" "\<not> low_surrogate (code_unit c)"
    by (simp_all add: high_surrogate_def low_surrogate_def word_le_nat_alt unat_code_unit)
qed

text \<open>A byte becomes the code unit of the same value, which is no surrogate, and
  comes back from it.\<close>

lemma unat_fromCharCode: "unat (fromCharCode b) = unat b"
proof -
  have "unat b < 256"
    using unsigned_less [of b] by simp
  then show ?thesis
    by (simp add: fromCharCode_def unsigned_ucast_eq take_bit_eq_mod)
qed

lemma plain_fromCharCode: "\<not> high_surrogate (fromCharCode b)" "\<not> low_surrogate (fromCharCode b)"
proof -
  have "unat b < 256"
    using unsigned_less [of b] by simp
  then show "\<not> high_surrogate (fromCharCode b)" "\<not> low_surrogate (fromCharCode b)"
    by (simp_all add: high_surrogate_def low_surrogate_def word_le_nat_alt unat_fromCharCode)
qed

lemma charCodeAt_fromCharCode: "charCodeAt (fromCharCode b) = b"
  by (simp add: charCodeAt_def unat_fromCharCode)

lemma well_formed_plain_Cons:
  "\<not> high_surrogate u \<Longrightarrow> \<not> low_surrogate u \<Longrightarrow> well_formed (u # s) = well_formed s"
  by (cases s) simp_all

lemma well_formed_plain_append:
  "list_all (\<lambda>u. \<not> high_surrogate u \<and> \<not> low_surrogate u) p \<Longrightarrow> well_formed (p @ s) = well_formed s"
  by (induction p) (simp_all add: well_formed_plain_Cons del: well_formed.simps)

lemma well_formed_lit: "well_formed (lit s)"
  using well_formed_plain_append [of "lit s" "[]"]
  by (simp add: lit_def list_all_iff plain_code_unit)

lemma well_formed_binary: "well_formed (map fromCharCode b)"
  using well_formed_plain_append [of "map fromCharCode b" "[]"]
  by (simp add: list_all_iff plain_fromCharCode)

text \<open>The codec of the small platform returns an encodable string.\<close>

lemma toy_sanitize_well_formed: "well_formed s \<Longrightarrow> toy_sanitize s = s"
  by (induction s rule: well_formed.induct) (simp_all split: if_splits)

lemma two_bytes_units: "code_units (two_bytes u @ bs) = u # code_units bs"
proof -
  have "unat u < 65536"
    using unsigned_less [of u] by simp
  then have "unat u div 256 < 256"
    by simp
  then have "unat (word_of_nat (unat u div 256) :: 8 word) = unat u div 256"
    by (simp add: unsigned_of_nat take_bit_eq_mod)
  moreover have "unat (word_of_nat (unat u mod 256) :: 8 word) = unat u mod 256"
    by (simp add: unsigned_of_nat take_bit_eq_mod)
  ultimately show ?thesis
    by (simp add: two_bytes_def)
qed

lemma code_units_bytes: "code_units (concat (map two_bytes s)) = s"
  by (induction s) (simp_all add: two_bytes_units)

lemma toy_codec:
  assumes "encodable s"
  shows "toy_decode (toy_encode s) = s"
proof -
  from assms have "toy_sanitize s = s"
    by (simp add: encodable_def toy_sanitize_well_formed)
  then have "code_units (toy_encode s) = s"
    by (simp add: toy_encode_def code_units_bytes)
  with assms show ?thesis
    by (cases s) (simp_all add: toy_decode_def encodable_def del: well_formed.simps)
qed

lemma code_unit_mark: "code_unit c \<noteq> 0xFEFF"
proof
  assume "code_unit c = 0xFEFF"
  then have "unat (code_unit c) = unat (0xFEFF :: 16 word)"
    by simp
  then have "(of_char c :: nat) = 65279"
    by (simp add: unat_code_unit)
  with of_char_small [of c] show False
    by linarith
qed

lemma encodable_plain_Cons:
  "\<not> high_surrogate u \<Longrightarrow> \<not> low_surrogate u \<Longrightarrow> u \<noteq> 0xFEFF
   \<Longrightarrow> encodable (u # s) = well_formed s"
  by (simp add: encodable_def well_formed_plain_Cons del: well_formed.simps)

lemma encodable_lit: "encodable (lit s)"
  using well_formed_lit [of s]
  by (cases s) (simp_all add: encodable_def lit_def code_unit_mark del: well_formed.simps)

lemma encodable_empty: "encodable []"
  by (simp add: encodable_def)

section \<open>The round trip of a record\<close>

text \<open>The loop of \<open>arrayBufferToBase64\<close> appends one character for every byte.\<close>

lemma binary_loop:
  "foldl (\<lambda>binary b. binary @ [fromCharCode b]) acc buffer = acc @ map fromCharCode buffer"
  by (induction buffer arbitrary: acc) simp_all

lemma arrayBufferToBase64_btoa: "arrayBufferToBase64 P b = btoa P (map fromCharCode b)"
  by (simp add: arrayBufferToBase64_def binary_loop)

lemma base64_round_trip:
  assumes "platform_ok P"
  shows "base64ToArrayBuffer P (arrayBufferToBase64 P b) = Inr b"
proof -
  from assms have "atob P (btoa P (map fromCharCode b)) = Some (map fromCharCode b)"
    by (simp add: platform_ok_def)
  then show ?thesis
    by (simp add: base64ToArrayBuffer_def arrayBufferToBase64_btoa charCodeAt_fromCharCode comp_def)
qed

lemma base64_nonempty:
  assumes "platform_ok P" and "b \<noteq> []"
  shows "arrayBufferToBase64 P b \<noteq> []"
  using assms unfolding arrayBufferToBase64_btoa platform_ok_def by simp

lemma decrypt_of_encrypt:
  assumes "platform_ok P" and "encodable s" and "length n = IV_LENGTH"
  shows "decrypt P (ciphertext (encrypt P s k n)) (iv (encrypt P s k n)) k = Inr s"
proof -
  from assms
  have "aes_gcm_decrypt P k n (aes_gcm_encrypt P k n (utf8_encode P s)) = Some (utf8_encode P s)"
    and "utf8_decode P (utf8_encode P s) = s"
    by (simp_all add: platform_ok_def)
  then show ?thesis
    by (simp add: decrypt_def encrypt_def base64_round_trip [OF assms(1)])
qed

lemma ciphertext_nonempty:
  assumes "platform_ok P" and "length n = IV_LENGTH"
  shows "ciphertext (encrypt P s k n) \<noteq> []"
proof -
  from assms have "aes_gcm_encrypt P k n (utf8_encode P s) \<noteq> []"
    by (simp add: platform_ok_def)
  then show ?thesis
    by (simp add: encrypt_def base64_nonempty [OF assms(1)])
qed

lemma field_safe:
  assumes "platform_ok P"
  shows "json_safe P (field_json (encrypt P s k n))"
  using assms by (simp add: encrypt_def platform_ok_def)

lemma parse_field:
  assumes "platform_ok P"
  shows "parse_json P (json_stringify P (field_json (encrypt P s k n)))
         = Inr (field_json (encrypt P s k n))"
  using assms field_safe [OF assms, of s k n] by (simp add: parse_json_def platform_ok_def)

lemma field_text_nonempty:
  assumes "platform_ok P"
  shows "json_stringify P (field_json (encrypt P s k n)) \<noteq> []"
  using assms field_safe [OF assms, of s k n] by (simp add: platform_ok_def)

lemma get_text_field:
  "get_text P (field_json f) (lit ''ciphertext'') = Inr (ciphertext f)"
  "get_text P (field_json f) (lit ''iv'') = Inr (iv f)"
  by (simp_all add: get_text_def get_prop_def field_json_def)

lemma decrypt_parsed_field:
  assumes "platform_ok P" and "encodable s" and "length n = IV_LENGTH"
  shows "decrypt_parsed P (field_json (encrypt P s k n)) k = Inr s"
  by (simp add: decrypt_parsed_def get_text_field decrypt_of_encrypt [OF assms])

text \<open>An absent context is encrypted as the empty text, whose ciphertext is the tag
  alone; it comes back as \<open>null\<close>.\<close>

lemma decrypt_context_empty:
  assumes "platform_ok P" and "length n = IV_LENGTH"
  shows "decrypt_context P (Some (field_json (encrypt P [] k n))) k = Inr None"
  using ciphertext_nonempty [OF assms, of "[]" k]
    decrypt_parsed_field [OF assms(1) encodable_empty assms(2), of k]
  by (simp add: decrypt_context_def get_prop_def field_json_def)

lemma decrypt_context_value:
  assumes "platform_ok P" and "json_safe P c" and "c \<noteq> JNull" and "length n = IV_LENGTH"
  shows "decrypt_context P (Some (field_json (encrypt P (json_stringify P c) k n))) k
         = Inr (Some c)"
proof -
  from assms have t: "json_stringify P c \<noteq> []"
    and w: "encodable (json_stringify P c)"
    and p: "parse_json P (json_stringify P c) = Inr c"
    by (simp_all add: platform_ok_def parse_json_def)
  have g: "get_prop (field_json (encrypt P (json_stringify P c) k n)) (lit ''ciphertext'')
           = Inr (Some (JStr (ciphertext (encrypt P (json_stringify P c) k n))))"
    by (simp add: get_prop_def field_json_def)
  show ?thesis
    using ciphertext_nonempty [OF assms(1,4), of "json_stringify P c" k]
      decrypt_parsed_field [OF assms(1) w assms(4), of k] t p g assms(3)
    by (simp add: decrypt_context_def nullable_def field_json_def)
qed

text \<open>The small platform satisfies the laws.\<close>

lemma stroke_bar: "bar \<noteq> stroke"
  by (simp add: bar_def stroke_def)

lemma takeWhile_strokes:
  "takeWhile (\<lambda>x. x = stroke) (replicate n stroke @ bar # t) = replicate n stroke"
  by (induction n) (simp_all add: stroke_bar)

lemma field_of_field [simp]: "field_of (field_json f) = Some (ciphertext f, iv f)"
  by (simp add: field_json_def)

lemma field_of_Some:
  "field_of j = Some (a, b) \<Longrightarrow> j = field_json \<lparr>ciphertext = a, iv = b\<rparr>"
  by (induction j rule: field_of.induct) (simp_all add: field_json_def split: if_splits)

lemma payload_of_Some:
  "payload_of j = Some (n, u) \<Longrightarrow> j = verification_payload (int n) u"
  by (induction j rule: payload_of.induct)
    (auto simp add: verification_payload_def split: if_splits)

lemma field_of_payload [simp]: "field_of (verification_payload t u) = None"
  by (simp add: verification_payload_def)

lemma payload_of_payload:
  "0 \<le> t \<Longrightarrow> payload_of (verification_payload t u) = Some (nat t, u)"
  by (simp add: verification_payload_def)

lemma toy_field_text:
  "toy_stringify (field_json f)
   = code_unit (CHR ''E'') # replicate (length (ciphertext f)) stroke @ bar # ciphertext f @ iv f"
  by (simp add: toy_stringify_def)

lemma toy_parse_field: "toy_parse (toy_stringify (field_json f)) = Some (field_json f)"
  by (cases f) (simp add: toy_field_text toy_parse_def takeWhile_strokes Let_def)

lemma toy_payload_text:
  "toy_stringify (verification_payload (int n) u)
   = code_unit (CHR ''V'') # replicate n stroke @ bar # u"
  by (simp add: toy_stringify_def payload_of_payload)

lemma toy_parse_payload:
  "toy_parse (toy_stringify (verification_payload (int n) u)) = Some (verification_payload (int n) u)"
  by (simp add: toy_payload_text toy_parse_def takeWhile_strokes Let_def)

lemma examples_plain:
  "field_of example_ml = None" "payload_of example_ml = None"
  "field_of example_context = None" "payload_of example_context = None"
  "example_ml \<noteq> example_context"
  by (simp_all add: example_ml_def example_context_def)

lemma toy_parse_letters:
  "toy_parse (lit ''M'') = Some example_ml" "toy_parse (lit ''C'') = Some example_context"
  by (simp_all add: toy_parse_def lit_def Let_def)

lemma plain_strokes:
  "encodable (code_unit c # replicate n stroke @ bar # s) = well_formed s"
proof -
  have "list_all (\<lambda>u. \<not> high_surrogate u \<and> \<not> low_surrogate u) (replicate n stroke @ [bar])"
    by (simp add: list_all_iff stroke_def bar_def plain_code_unit)
  from well_formed_plain_append [OF this, of s] show ?thesis
    by (simp add: encodable_plain_Cons plain_code_unit code_unit_mark)
qed

lemma toy_json_law:
  assumes "toy_safe j"
  shows "toy_parse (toy_stringify j) = Some j \<and> toy_stringify j \<noteq> [] \<and>
         encodable (toy_stringify j)"
proof (cases "field_of j")
  case (Some ab)
  obtain a b where ab: "ab = (a, b)"
    by (cases ab)
  from Some ab have j: "j = field_json \<lparr>ciphertext = a, iv = b\<rparr>"
    by (simp add: field_of_Some)
  from assms Some ab have "well_formed (a @ b)"
    by (simp add: toy_safe_def)
  then show ?thesis
    unfolding j by (simp add: toy_parse_field) (simp add: toy_field_text plain_strokes)
next
  case None
  show ?thesis
  proof (cases "payload_of j")
    case (Some nu)
    obtain n u where nu: "nu = (n, u)"
      by (cases nu)
    from Some nu have j: "j = verification_payload (int n) u"
      by (simp add: payload_of_Some)
    from assms None Some nu have "well_formed u"
      by (simp add: toy_safe_def)
    then show ?thesis
      unfolding j by (simp add: toy_parse_payload) (simp add: toy_payload_text plain_strokes)
  next
    case n: None
    with assms None have "j = example_ml \<or> j = example_context"
      by (simp add: toy_safe_def)
    then show ?thesis
      using examples_plain
      by (auto simp add: toy_stringify_def toy_parse_letters encodable_lit)
  qed
qed

lemma toy_ok: "platform_ok toy"
  unfolding platform_ok_def
proof (intro conjI allI impI)
  fix k :: "8 word" and n d :: bytes
  show "aes_gcm_decrypt toy k n (aes_gcm_encrypt toy k n d) = Some d"
    by (simp add: toy_def toy_decrypt_def)
  show "aes_gcm_encrypt toy k n d \<noteq> []"
    by (simp add: toy_def)
next
  fix s :: jstring
  assume "encodable s"
  then show "utf8_decode toy (utf8_encode toy s) = s"
    by (simp add: toy_def toy_codec)
next
  fix b :: bytes
  show "atob toy (btoa toy (map fromCharCode b)) = Some (map fromCharCode b)"
    by (simp add: toy_def)
  show "btoa toy (map fromCharCode b) \<noteq> []" if "b \<noteq> []"
    using that by (simp add: toy_def)
next
  fix j
  assume "json_safe toy j"
  then have "toy_safe j"
    by (simp add: toy_def)
  from toy_json_law [OF this]
  show "json_parse toy (json_stringify toy j) = Some j" and "json_stringify toy j \<noteq> []"
    and "encodable (json_stringify toy j)"
    by (simp_all add: toy_def)
next
  fix x y :: bytes
  have "well_formed (map fromCharCode (x @ y))"
    by (rule well_formed_binary)
  then show "json_safe toy
     (field_json \<lparr>ciphertext = arrayBufferToBase64 toy x, iv = arrayBufferToBase64 toy y\<rparr>)"
    by (simp add: arrayBufferToBase64_btoa) (simp add: toy_def toy_safe_def)
qed

lemma example_record_valid: "valid_record toy example_record"
  by (simp add: valid_record_def example_record_def encodable_lit)
    (simp add: toy_def toy_safe_def examples_plain)


text \<open>The round trip, from the laws of the platform.\<close>

lemma nonce_length: "length (nonce b) = IV_LENGTH"
  by (simp add: nonce_def)

lemma round_trip:
  assumes "platform_ok P" and "valid_record P r"
    and "length n1 = IV_LENGTH" and "length n2 = IV_LENGTH"
    and "length n3 = IV_LENGTH" and "length n4 = IV_LENGTH"
  shows "decryptAnalysisData P (encryptAnalysisData P r key n1 n2 n3 n4) key = Some r"
proof -
  note pf = parse_field [OF assms(1)]
  note ne = field_text_nonempty [OF assms(1)]
  from assms(2) have we: "encodable (userEmail r)" and wc: "encodable (inputContent r)"
    and sm: "json_safe P (mlResult r)"
    by (simp_all add: valid_record_def)
  from assms(1) sm have ml: "parse_json P (json_stringify P (mlResult r)) = Inr (mlResult r)"
    and wm: "encodable (json_stringify P (mlResult r))"
    by (simp_all add: platform_ok_def parse_json_def)
  note de = decrypt_parsed_field [OF assms(1) we assms(3)]
  note dc = decrypt_parsed_field [OF assms(1) wc assms(4)]
  note dm = decrypt_parsed_field [OF assms(1) wm assms(6)]
  have ctx: "decrypt_context P
      (Some (field_json (encrypt P
         (case analysisContext r of
            None \<Rightarrow> []
          | Some c \<Rightarrow> if js_truthy c then json_stringify P c else []) key n3))) key
      = Inr (analysisContext r)"
  proof (cases "analysisContext r")
    case None
    then show ?thesis
      by (simp add: decrypt_context_empty [OF assms(1,5)])
  next
    case (Some c)
    with assms(2) have "js_truthy c" and "json_safe P c"
      by (simp_all add: valid_record_def)
    moreover from this have "c \<noteq> JNull"
      by auto
    ultimately show ?thesis
      using Some by (simp add: decrypt_context_value [OF assms(1) _ _ assms(5)])
  qed
  show ?thesis
    by (simp add: decryptAnalysisData_def encryptAnalysisData_def Let_def pf ne de dc dm ml ctx
        truthy_str_def)
qed



text \<open>What the codec of the small platform does to a string that is not encodable.\<close>

lemma lone_surrogate_replaced:
  "toy_decode (toy_encode [code_unit (CHR ''a''), 0xD800, code_unit (CHR ''b'')])
   = [code_unit (CHR ''a''), replacement, code_unit (CHR ''b'')]"
proof -
  have h: "high_surrogate 0xD800" "\<not> low_surrogate 0xD800"
    by (simp_all add: high_surrogate_def low_surrogate_def)
  have "toy_sanitize [code_unit (CHR ''a''), 0xD800, code_unit (CHR ''b'')]
        = [code_unit (CHR ''a''), replacement, code_unit (CHR ''b'')]"
    by (simp add: h plain_code_unit)
  then have "code_units (toy_encode [code_unit (CHR ''a''), 0xD800, code_unit (CHR ''b'')])
        = [code_unit (CHR ''a''), replacement, code_unit (CHR ''b'')]"
    by (simp only: toy_encode_def code_units_bytes)
  then show ?thesis
    by (simp add: toy_decode_def code_unit_mark)
qed

lemma leading_mark_dropped:
  "toy_decode (toy_encode [0xFEFF, code_unit (CHR ''a'')]) = [code_unit (CHR ''a'')]"
proof -
  have h: "\<not> high_surrogate 0xFEFF" "\<not> low_surrogate 0xFEFF"
    by (simp_all add: high_surrogate_def low_surrogate_def)
  have "toy_sanitize [0xFEFF, code_unit (CHR ''a'')] = [0xFEFF, code_unit (CHR ''a'')]"
    by (simp add: h plain_code_unit)
  then have "code_units (toy_encode [0xFEFF, code_unit (CHR ''a'')])
        = [0xFEFF, code_unit (CHR ''a'')]"
    by (simp only: toy_encode_def code_units_bytes)
  then show ?thesis
    by (simp add: toy_decode_def)
qed

lemma decrypt_parsed_any:
  assumes "platform_ok P" and "length n = IV_LENGTH"
  shows "decrypt_parsed P (field_json (encrypt P s k n)) k
         = Inr (utf8_decode P (utf8_encode P s))"
proof -
  from assms
  have "aes_gcm_decrypt P k n (aes_gcm_encrypt P k n (utf8_encode P s)) = Some (utf8_encode P s)"
    by (simp add: platform_ok_def)
  then show ?thesis
    by (simp add: decrypt_parsed_def get_text_field decrypt_def encrypt_def
        base64_round_trip [OF assms(1)])
qed

text \<open>On the small platform, as in a browser, a record whose e-mail has a lone
  surrogate or starts with a byte order mark does not come back as it was.\<close>

lemma invalid_records_change:
  "decryptAnalysisData toy
     (encryptAnalysisData toy broken_record alice_key (nonce 4) (nonce 5) (nonce 6) (nonce 7))
     alice_key
   = Some (broken_record\<lparr>userEmail := [code_unit (CHR ''a''), replacement, code_unit (CHR ''b'')]\<rparr>)"
  "decryptAnalysisData toy
     (encryptAnalysisData toy marked_record alice_key (nonce 4) (nonce 5) (nonce 6) (nonce 7))
     alice_key
   = Some (marked_record\<lparr>userEmail := [code_unit (CHR ''a'')]\<rparr>)"
  "\<not> valid_record toy broken_record" "\<not> valid_record toy marked_record"
proof -
  note pf = parse_field [OF toy_ok]
  note ne = field_text_nonempty [OF toy_ok]
  note da = decrypt_parsed_any [OF toy_ok nonce_length]
  have c: "utf8_decode toy (utf8_encode toy (lit ''Click here to verify'')) = lit ''Click here to verify''"
    using toy_ok encodable_lit [of "''Click here to verify''"] by (simp add: platform_ok_def)
  have s: "json_safe toy example_ml"
    by (simp add: toy_def toy_safe_def examples_plain)
  with toy_ok have m: "utf8_decode toy (utf8_encode toy (json_stringify toy example_ml))
        = json_stringify toy example_ml"
    and p: "parse_json toy (json_stringify toy example_ml) = Inr example_ml"
    by (simp_all add: platform_ok_def parse_json_def)
  have x: "decrypt_context toy (Some (field_json (encrypt toy [] alice_key (nonce 6)))) alice_key
           = Inr None"
    by (rule decrypt_context_empty [OF toy_ok nonce_length])
  have b: "utf8_decode toy (utf8_encode toy [code_unit (CHR ''a''), 0xD800, code_unit (CHR ''b'')])
           = [code_unit (CHR ''a''), replacement, code_unit (CHR ''b'')]"
    using lone_surrogate_replaced by (simp add: toy_def)
  have k: "utf8_decode toy (utf8_encode toy [0xFEFF, code_unit (CHR ''a'')]) = [code_unit (CHR ''a'')]"
    using leading_mark_dropped by (simp add: toy_def)
  show "decryptAnalysisData toy
     (encryptAnalysisData toy broken_record alice_key (nonce 4) (nonce 5) (nonce 6) (nonce 7))
     alice_key
   = Some (broken_record\<lparr>userEmail := [code_unit (CHR ''a''), replacement, code_unit (CHR ''b'')]\<rparr>)"
    by (simp add: decryptAnalysisData_def encryptAnalysisData_def Let_def broken_record_def
        example_record_def pf ne da c m p x b truthy_str_def)
  show "decryptAnalysisData toy
     (encryptAnalysisData toy marked_record alice_key (nonce 4) (nonce 5) (nonce 6) (nonce 7))
     alice_key
   = Some (marked_record\<lparr>userEmail := [code_unit (CHR ''a'')]\<rparr>)"
    by (simp add: decryptAnalysisData_def encryptAnalysisData_def Let_def marked_record_def
        example_record_def pf ne da c m p x k truthy_str_def)
  have "high_surrogate 0xD800"
    by (simp add: high_surrogate_def)
  then show "\<not> valid_record toy broken_record"
    by (simp add: valid_record_def broken_record_def encodable_def plain_code_unit)
  show "\<not> valid_record toy marked_record"
    by (simp add: valid_record_def marked_record_def encodable_def)
qed

section \<open>The local store after a clear\<close>

text \<open>
  Claim C10. When the store holds a record for the user, \<open>clearEncryptedKey\<close>
  leaves a record behind: \<open>hasEncryptedKey\<close> answers true and \<open>getEncryptedKey\<close>
  returns the empty string, not \<open>null\<close>. That string is falsy, so a caller that
  tests the result sees no usable blob, and it is the very answer that a record
  gives which has only ever held a salt: \<open>getEncryptedKey\<close> alone cannot tell a
  cleared blob from one that was never stored.
\<close>

theorem clear_blanks_but_keeps_record:
  assumes "store sub = Some r"
  shows "\<exists>store'. clearEncryptedKey Works True t store sub = Inr store' \<and>
           hasEncryptedKey Works store' sub = Inr True \<and>
           getEncryptedKey Works store' sub = Inr (Some []) \<and>
           \<not> truthy_str (Some []) \<and>
           (\<forall>fresh t0 s. fresh sub = None \<longrightarrow>
              (\<exists>salted. storeSalt Works True t0 fresh sub s = Inr salted \<and>
                 getEncryptedKey Works salted sub = getEncryptedKey Works store' sub))"
  using assms
  by (simp add: clearEncryptedKey_def hasEncryptedKey_def getEncryptedKey_def storeSalt_def
      truthy_str_def)

theorem clear_blanks_but_keeps_record_witness:
  "alice_store alice \<noteq> None \<and>
   (\<exists>store'. clearEncryptedKey Works True 3000 alice_store alice = Inr store' \<and>
      hasEncryptedKey Works store' alice = Inr True \<and>
      getEncryptedKey Works store' alice = Inr (Some []))"
  using clear_blanks_but_keeps_record [of alice_store alice _ 3000]
  by (auto simp add: alice_store_def)

section \<open>The session: what each operation leaves unchanged\<close>

lemma getEncryptionStatus_frame:
  "db (snd (getEncryptionStatus e s)) = db s \<and>
   encryptionKey (snd (getEncryptionStatus e s)) = encryptionKey s \<and>
   isUnlocked (snd (getEncryptionStatus e s)) = isUnlocked s \<and>
   isSetup (snd (getEncryptionStatus e s)) = isSetup s \<and>
   hasCheckedSetup (snd (getEncryptionStatus e s)) = hasCheckedSetup s \<and>
   isLoading (snd (getEncryptionStatus e s)) = isLoading s"
  by (simp add: getEncryptionStatus_def log_error_def split: response.splits)

lemma getSalt_frame:
  "db (snd (getSalt e s)) = db s \<and>
   encryptionKey (snd (getSalt e s)) = encryptionKey s \<and>
   isUnlocked (snd (getSalt e s)) = isUnlocked s \<and>
   isSetup (snd (getSalt e s)) = isSetup s \<and>
   hasCheckedSetup (snd (getSalt e s)) = hasCheckedSetup s \<and>
   isLoading (snd (getSalt e s)) = isLoading s"
proof -
  obtain st s1 where g: "getEncryptionStatus e s = (st, s1)"
    by (cases "getEncryptionStatus e s")
  with getEncryptionStatus_frame [of e s] show ?thesis
    by (simp add: getSalt_def)
qed

lemma unlock_salt_frame:
  assumes "unlock_salt e s = (found, s1)"
  shows "db s1 = db s \<and> encryptionKey s1 = encryptionKey s \<and> isUnlocked s1 = isUnlocked s \<and>
         isSetup s1 = isSetup s \<and> hasCheckedSetup s1 = hasCheckedSetup s \<and>
         isLoading s1 = isLoading s"
  using assms getSalt_frame [of e s] by (auto simp add: unlock_salt_def split: if_splits)

lemma unlock_salt_kept:
  assumes "truthy_str (userSalt s)"
  shows "unlock_salt e s = (userSalt s, s)"
  using assms by (simp add: unlock_salt_def)

lemma checkSetup_db: "db (checkSetup e s) = db s"
proof -
  obtain st s1 where g: "getEncryptionStatus e s = (st, s1)"
    by (cases "getEncryptionStatus e s")
  with getEncryptionStatus_frame [of e s] have "db s1 = db s"
    by simp
  with g show ?thesis
    by (simp add: checkSetup_def log_error_def split: sum.splits bool.splits)
qed

lemma alice_material_text: "alice_material \<noteq> []"
  unfolding alice_material_def encryptKeyMaterial_def
  by (rule field_text_nonempty [OF toy_ok])

lemma alice_text: "alice \<noteq> []" "alice_salt \<noteq> []" "truthy_str (Some alice)"
  by (simp_all add: alice_def alice_salt_def truthy_str_def)

text \<open>
  Claim C1, as the code has it. \<open>lockEncryption\<close> discards the key in memory, marks
  the session locked and resets the flag \<open>hasCheckedSetup\<close>; it leaves the local
  store as it is, the verification blob and the salt alike, and keeps the salt in
  memory. The pass that runs on sign-out does not touch the store either, and
  leaves no key in memory.
\<close>

theorem lock_keeps_store:
  "encryptionKey (lockEncryption s) = None \<and> \<not> isUnlocked (lockEncryption s) \<and>
   \<not> hasCheckedSetup (lockEncryption s) \<and>
   db (lockEncryption s) = db s \<and> userSalt (lockEncryption s) = userSalt s \<and>
   isSetup (lockEncryption s) = isSetup s \<and>
   db (authEffects e s) = db s \<and>
   (\<not> isAuthenticated e \<longrightarrow> encryptionKey (authEffects e s) = None)"
  by (simp add: lockEncryption_def authEffects_def lockOnLogout_def checkSetup_db)

theorem lock_keeps_store_witness:
  "encryptionKey (lockEncryption unlocked_state) = None \<and>
   db (lockEncryption unlocked_state) = alice_store \<and>
   db (authEffects signed_out unlocked_state) = alice_store \<and>
   encryptionKey (authEffects signed_out unlocked_state) = None"
  using lock_keeps_store [of unlocked_state signed_out]
  by (simp add: unlocked_state_def signed_out_def signed_in_def)

text \<open>
  Claim C1 as stated fails: after \<open>lockEncryption\<close> on an unlocked session the
  store still returns the verification blob that it held, which is not blank.
\<close>

theorem lock_blanks_blob_counterexample:
  "isUnlocked unlocked_state \<and> encryptionKey unlocked_state \<noteq> None \<and>
   getEncryptedKey Works (db unlocked_state) alice = Inr (Some alice_material) \<and>
   getEncryptedKey Works (db (lockEncryption unlocked_state)) alice = Inr (Some alice_material) \<and>
   alice_material \<noteq> []"
  by (simp add: unlocked_state_def lockEncryption_def getEncryptedKey_def alice_store_def
      alice_material_text)

section \<open>The session: initialization\<close>

text \<open>
  Claim C2, as the code has it. For a signed-in user without local key material
  whose remote status reports no salt but existing records, \<open>checkSetup\<close> prints
  the data inconsistency on the console and leaves the session with \<open>isSetup\<close>,
  \<open>isUnlocked\<close> and \<open>isLoading\<close> false: the state that the same check reaches
  when there are no records either, but for the console line.
\<close>

theorem inconsistency_is_only_logged:
  assumes "isAuthenticated e" and "truthy_str (userSub e)"
    and "\<not> (isUnlocked s \<and> encryptionKey s \<noteq> None)" and "\<not> (hasCheckedSetup s \<and> isSetup s)"
    and "hasEncryptedKey (keyRead e) (db s) (the (userSub e)) = Inr False"
    and "statusResponse e = Ok d" and "\<not> hasSalt d" and "hasAnalyses d"
  shows "checkSetup e s =
           (checkSetup (e\<lparr>statusResponse := Ok (d\<lparr>hasAnalyses := False\<rparr>)\<rparr>) s)
             \<lparr>console := console s @ [''User has analyses but no salt found - data inconsistency'']\<rparr> \<and>
         \<not> isSetup (checkSetup e s) \<and> \<not> isUnlocked (checkSetup e s) \<and>
         \<not> isLoading (checkSetup e s)"
  using assms
  by (cases "isUnlocked s"; cases "hasCheckedSetup s"; cases "isSetup s")
    (simp_all add: checkSetup_def getEncryptionStatus_def log_error_def)

theorem inconsistency_is_only_logged_witness:
  "isAuthenticated inconsistent \<and> truthy_str (userSub inconsistent) \<and>
   hasEncryptedKey (keyRead inconsistent) (db initial_state) (the (userSub inconsistent)) = Inr False \<and>
   \<not> isSetup (checkSetup inconsistent initial_state) \<and>
   \<not> isUnlocked (checkSetup inconsistent initial_state) \<and>
   \<not> isLoading (checkSetup inconsistent initial_state) \<and>
   console (checkSetup inconsistent initial_state)
     = [''User has analyses but no salt found - data inconsistency'']"
proof -
  have a: "isAuthenticated inconsistent" "truthy_str (userSub inconsistent)"
    "\<not> (isUnlocked initial_state \<and> encryptionKey initial_state \<noteq> None)"
    "\<not> (hasCheckedSetup initial_state \<and> isSetup initial_state)"
    "hasEncryptedKey (keyRead inconsistent) (db initial_state) (the (userSub inconsistent)) = Inr False"
    "statusResponse inconsistent = Ok \<lparr>hasSalt = False, hasAnalyses = True, status_salt = None\<rparr>"
    by (simp_all add: inconsistent_def signed_in_def initial_state_def alice_text
        hasEncryptedKey_def getEncryptedKey_def)
  have b: "\<not> hasSalt \<lparr>hasSalt = False, hasAnalyses = True, status_salt = None\<rparr>"
    "hasAnalyses \<lparr>hasSalt = False, hasAnalyses = True, status_salt = None\<rparr>"
    by simp_all
  note t = inconsistency_is_only_logged [OF a b]
  from t have c: "checkSetup inconsistent initial_state =
      (checkSetup (inconsistent\<lparr>statusResponse :=
          Ok (\<lparr>hasSalt = False, hasAnalyses = True, status_salt = None\<rparr>\<lparr>hasAnalyses := False\<rparr>)\<rparr>)
        initial_state)
        \<lparr>console := console initial_state
           @ [''User has analyses but no salt found - data inconsistency'']\<rparr>"
    by (rule conjunct1)
  have "console (checkSetup inconsistent initial_state)
        = console initial_state @ [''User has analyses but no salt found - data inconsistency'']"
    by (subst c) simp
  then have "console (checkSetup inconsistent initial_state)
        = [''User has analyses but no salt found - data inconsistency'']"
    by (simp add: initial_state_def)
  with t a(1,2,5) show ?thesis
    by blast
qed

text \<open>
  Claim C2 as stated fails: the session that \<open>checkSetup\<close> leaves for the
  inconsistent account is, once the console line is removed, the session it
  leaves for a new account that is not set up.
\<close>

theorem inconsistency_state_counterexample:
  "(checkSetup inconsistent initial_state)\<lparr>console := []\<rparr> = checkSetup fresh_account initial_state"
  by (simp add: checkSetup_def inconsistent_def fresh_account_def signed_in_def initial_state_def
      alice_text hasEncryptedKey_def getEncryptedKey_def getEncryptionStatus_def
      log_error_def)

section \<open>The session: a key in memory exactly when unlocked\<close>

text \<open>An unlock either succeeds and holds a key, or fails and leaves key, flags and
  store as they were; a setup likewise.\<close>

lemma unlock_outcome:
  "(fst (unlockEncryption P e p s) = Inr () \<and>
      encryptionKey (snd (unlockEncryption P e p s)) \<noteq> None \<and>
      isUnlocked (snd (unlockEncryption P e p s)))
   \<or> (fst (unlockEncryption P e p s) \<noteq> Inr () \<and>
      encryptionKey (snd (unlockEncryption P e p s)) = encryptionKey s \<and>
      isUnlocked (snd (unlockEncryption P e p s)) = isUnlocked s \<and>
      isSetup (snd (unlockEncryption P e p s)) = isSetup s \<and>
      hasCheckedSetup (snd (unlockEncryption P e p s)) = hasCheckedSetup s \<and>
      db (snd (unlockEncryption P e p s)) = db s)"
proof -
  obtain found s1 where a: "unlock_salt e s = (found, s1)"
    by (cases "unlock_salt e s")
  note f = unlock_salt_frame [OF a]
  show ?thesis
    unfolding unlockEncryption_def Let_def a
    using f
    by (simp add: unlock_failed_def log_error_def split: option.splits sum.splits)
qed

lemma setup_outcome:
  "(fst (setupEncryption P e p s) = Inr () \<and>
      encryptionKey (snd (setupEncryption P e p s)) \<noteq> None \<and>
      isUnlocked (snd (setupEncryption P e p s)))
   \<or> (fst (setupEncryption P e p s) \<noteq> Inr () \<and>
      encryptionKey (snd (setupEncryption P e p s)) = encryptionKey s \<and>
      isUnlocked (snd (setupEncryption P e p s)) = isUnlocked s)"
  by (simp add: setupEncryption_def Let_def saveSalt_def storeEncryptedKey_def log_error_def
      split: response.splits idb_outcome.splits)

lemma checkSetup_signed_in:
  assumes "key_iff_unlocked s" and "isAuthenticated e" and "truthy_str (userSub e)"
  shows "key_iff_unlocked (checkSetup e s)"
proof -
  obtain st s1 where g: "getEncryptionStatus e s = (st, s1)"
    by (cases "getEncryptionStatus e s")
  with getEncryptionStatus_frame [of e s]
  have "encryptionKey s1 = encryptionKey s" and "isUnlocked s1 = isUnlocked s"
    by simp_all
  with g assms show ?thesis
    by (auto simp add: checkSetup_def key_iff_unlocked_def log_error_def
        split: sum.splits bool.splits)
qed

text \<open>
  From a session in which a key is in memory exactly when it is unlocked, setup,
  unlock and lock lead to such a session, and so do the initialization check and
  the pass of the two effects whenever an authenticated user has an identity.
\<close>

lemma operations_keep_invariant:
  assumes "key_iff_unlocked s"
  shows "key_iff_unlocked (snd (setupEncryption P e p s))"
    and "key_iff_unlocked (snd (unlockEncryption P e p s))"
    and "key_iff_unlocked (lockEncryption s)"
    and "isAuthenticated e \<Longrightarrow> truthy_str (userSub e) \<Longrightarrow> key_iff_unlocked (checkSetup e s)"
    and "(isAuthenticated e \<longrightarrow> truthy_str (userSub e)) \<Longrightarrow> key_iff_unlocked (authEffects e s)"
proof -
  show "key_iff_unlocked (snd (setupEncryption P e p s))"
    using setup_outcome [of P e p s] assms by (auto simp add: key_iff_unlocked_def)
  show "key_iff_unlocked (snd (unlockEncryption P e p s))"
    using unlock_outcome [of P e p s] assms by (auto simp add: key_iff_unlocked_def)
  show "key_iff_unlocked (lockEncryption s)"
    by (simp add: key_iff_unlocked_def lockEncryption_def)
  show c: "key_iff_unlocked (checkSetup e s)" if "isAuthenticated e" "truthy_str (userSub e)"
    using that assms by (simp add: checkSetup_signed_in)
  show "key_iff_unlocked (authEffects e s)" if "isAuthenticated e \<longrightarrow> truthy_str (userSub e)"
  proof (cases "isAuthenticated e")
    case True
    with that c show ?thesis
      by (simp add: authEffects_def lockOnLogout_def)
  next
    case False
    then show ?thesis
      by (simp add: authEffects_def lockOnLogout_def lockEncryption_def key_iff_unlocked_def)
  qed
qed



section \<open>The session: verifying the passphrase on unlock\<close>


text \<open>The block that verifies against the local blob accepts exactly the keys that
  the specification's words accept.\<close>

lemma verify_blob_refines:
  assumes "sub \<noteq> []"
  shows "verify_blob P material sub key
         = (if blob_accepts P material sub key then Inr () else Inl InvalidPassphrase)"
proof (cases "decryptKeyMaterial P material key")
  case (Inl err)
  then show ?thesis
    by (simp add: verify_blob_def blob_accepts_def)
next
  case (Inr payload)
  show ?thesis
  proof (cases "json_parse P payload")
    case None
    with Inr show ?thesis
      by (simp add: verify_blob_def blob_accepts_def embedded_identity_def parse_json_def)
  next
    case (Some data)
    with Inr assms show ?thesis
      by (cases data)
        (auto simp add: verify_blob_def blob_accepts_def embedded_identity_def parse_json_def
           get_prop_def split: option.splits json.splits)
  qed
qed

text \<open>The block that verifies against the collaborator, case by case.\<close>

lemma verify_records_cases:
  "verify_records P e store sub key =
     (case analysesResponse e of
        Throws thrown \<Rightarrow>
          (case thrown of
             None \<Rightarrow> Inl TypeError
           | Some m \<Rightarrow>
               if str_includes m (lit ''Invalid passphrase'') then Inl (Thrown (Some m))
               else Inl VerifyFailed)
      | NotOk \<Rightarrow> Inl VerifyFailed
      | Ok items \<Rightarrow>
          (case items of
             [] \<Rightarrow>
               (if keyWrite e = Works then Inr (store(sub \<mapsto> fresh_blob P e sub key))
                else Inl VerifyFailed)
           | r # rest \<Rightarrow>
               (case decryptAnalysisData P r key of
                  None \<Rightarrow> Inl InvalidPassphrase
                | Some plain \<Rightarrow>
                    if keyWrite e = Works then Inr (store(sub \<mapsto> fresh_blob P e sub key))
                    else Inl InvalidPassphrase)))"
  by (cases "keyWrite e")
    (simp_all add: verify_records_def Let_def storeEncryptedKey_def fresh_blob_def message_def
      split: response.splits list.splits option.splits)

lemma getEncryptedKey_local_blob:
  "truthy_str (case store sub of None \<Rightarrow> None | Some r \<Rightarrow> Some (encryptedKeyMaterial r))
     = (local_blob store sub \<noteq> None)"
  "local_blob store sub = Some m \<Longrightarrow> store sub \<noteq> None \<and> encryptedKeyMaterial (the (store sub)) = m"
  by (auto simp add: truthy_str_def local_blob_def split: option.splits if_splits)

text \<open>With an identity, a salt that decodes and a store that can be read, an unlock
  is its verification block followed by the commit of the key.\<close>

lemma unlock_reduced:
  assumes "userSub e = Some sub" and "sub \<noteq> []"
    and "unlock_salt e s = (Some salt64, s1)" and "salt64 \<noteq> []"
    and "atob P salt64 = Some binary" and "keyRead e = Works"
  shows "unlockEncryption P e p s =
     (case (case local_blob (db s) sub of
              None \<Rightarrow> verify_records P e (db s) sub (deriveKey P p (map charCodeAt binary))
            | Some material \<Rightarrow>
                (case verify_blob P material sub (deriveKey P p (map charCodeAt binary)) of
                   Inl err \<Rightarrow> Inl err
                 | Inr u \<Rightarrow> Inr (db s))) of
        Inl err \<Rightarrow> unlock_failed err s1
      | Inr db' \<Rightarrow>
          (Inr (), s1\<lparr>db := db', encryptionKey := Some (deriveKey P p (map charCodeAt binary)),
                     userSalt := Some salt64, isSetup := True, isUnlocked := True,
                     hasCheckedSetup := True, isLoading := False\<rparr>))"
proof -
  have d: "db s1 = db s"
    using unlock_salt_frame [OF assms(3)] by simp
  show ?thesis
  proof (cases "local_blob (db s) sub")
    case None
    then have "\<not> truthy_str (case db s sub of None \<Rightarrow> None | Some r \<Rightarrow> Some (encryptedKeyMaterial r))"
      by (simp add: getEncryptedKey_local_blob(1))
    with None assms d show ?thesis
      by (simp add: unlockEncryption_def Let_def getEncryptedKey_def truthy_str_def)
  next
    case (Some material)
    then have "truthy_str (case db s sub of None \<Rightarrow> None | Some r \<Rightarrow> Some (encryptedKeyMaterial r))"
      and "the (case db s sub of None \<Rightarrow> None | Some r \<Rightarrow> Some (encryptedKeyMaterial r)) = material"
      using getEncryptedKey_local_blob(2) [OF Some]
      by (auto simp add: getEncryptedKey_local_blob(1))
    with Some assms d show ?thesis
      by (simp add: unlockEncryption_def Let_def getEncryptedKey_def truthy_str_def
          split: sum.splits)
  qed
qed

text \<open>A failed unlock prints one line, ends the loading and changes nothing else.\<close>

lemma unlock_failed_frame:
  assumes "unlock_salt e s = (found, s1)"
  shows "fst (unlock_failed err s1) = Inl err"
    and "snd (unlock_failed err s1)
         = s1\<lparr>console := console s1 @ [''Failed to unlock encryption:''], isLoading := False\<rparr>"
    and "encryptionKey (snd (unlock_failed err s1)) = encryptionKey s"
    and "isUnlocked (snd (unlock_failed err s1)) = isUnlocked s"
    and "isSetup (snd (unlock_failed err s1)) = isSetup s"
    and "hasCheckedSetup (snd (unlock_failed err s1)) = hasCheckedSetup s"
    and "db (snd (unlock_failed err s1)) = db s"
    and "locked s \<longrightarrow> locked (snd (unlock_failed err s1))"
  using unlock_salt_frame [OF assms]
  by (simp_all add: unlock_failed_def log_error_def locked_def)

text \<open>What the small platform computes for the example sessions.\<close>

lemma alice_ready:
  "userSub signed_in = Some alice" "alice \<noteq> []" "alice_salt \<noteq> []"
  "atob toy alice_salt = Some alice_salt" "keyRead signed_in = Works"
  "unlock_salt signed_in locked_state = (Some alice_salt, locked_state)"
  "unlock_salt signed_in new_device_state = (Some alice_salt, new_device_state)"
  "keyWrite signed_in = Works" "length (randomIv signed_in) = IV_LENGTH"
  by (simp_all add: signed_in_def alice_text toy_def unlock_salt_def
      locked_state_def new_device_state_def truthy_str_def nonce_length)

lemma alice_blob: "local_blob (db locked_state) alice = Some alice_material"
  by (simp add: local_blob_def locked_state_def alice_store_def alice_material_text)

lemma new_device_blob: "local_blob (db new_device_state) alice = None"
  by (simp add: local_blob_def new_device_state_def)

lemma decryptKeyMaterial_encryptKeyMaterial:
  assumes "platform_ok P" and "encodable plain" and "length n = IV_LENGTH"
  shows "decryptKeyMaterial P (encryptKeyMaterial P plain k n) k = Inr plain"
  by (simp add: decryptKeyMaterial_def encryptKeyMaterial_def parse_field [OF assms(1)]
      decrypt_parsed_field [OF assms])

text \<open>On the small platform a field encrypted under one key does not decrypt under
  another.\<close>

lemma toy_wrong_key:
  assumes "k' \<noteq> k"
  shows "decrypt_parsed toy (field_json (encrypt toy s k n)) k' = Inl OperationError"
proof -
  have "aes_gcm_decrypt toy k' n (aes_gcm_encrypt toy k n (utf8_encode toy s)) = None"
    using assms by (simp add: toy_def toy_decrypt_def)
  then show ?thesis
    by (simp add: decrypt_parsed_def get_text_field decrypt_def
        encrypt_def base64_round_trip [OF toy_ok])
qed

lemma wrong_key_differs:
  "wrong_key \<noteq> alice_key"
  by (simp add: wrong_key_def alice_key_def deriveKey_def toy_def toy_key_def
      wrong_passphrase_def correct_passphrase_def)

text \<open>The payload of a verification blob carries the identity, and the blob that an
  unlock stores is one that the next unlock accepts under the same key.\<close>

lemma payload_safe: "0 \<le> t \<Longrightarrow> well_formed u \<Longrightarrow> json_safe toy (verification_payload t u)"
  by (simp add: toy_def toy_safe_def payload_of_payload)

lemma payload_identity:
  assumes "platform_ok P" and "json_safe P (verification_payload t sub)" and "sub \<noteq> []"
  shows "embedded_identity P (verificationData P t sub) = Some sub"
    and "encodable (verificationData P t sub)"
proof -
  from assms(1,2)
  have "json_parse P (verificationData P t sub) = Some (verification_payload t sub)"
    and w: "encodable (verificationData P t sub)"
    by (simp_all add: platform_ok_def verificationData_def)
  with assms(3) show "embedded_identity P (verificationData P t sub) = Some sub"
    by (simp add: embedded_identity_def verification_payload_def)
  from w show "encodable (verificationData P t sub)" .
qed

lemma fresh_blob_accepts:
  assumes "platform_ok P" and "sub \<noteq> []"
    and "json_safe P (verification_payload (now e) sub)"
    and "length (randomIv e) = IV_LENGTH"
  shows "local_blob (store(sub \<mapsto> fresh_blob P e sub key)) sub
           = Some (encryptedKeyMaterial (fresh_blob P e sub key))"
    and "blob_accepts P (encryptedKeyMaterial (fresh_blob P e sub key)) sub key"
proof -
  note p = payload_identity [OF assms(1,3,2)]
  have "encryptedKeyMaterial (fresh_blob P e sub key) \<noteq> []"
    by (simp add: fresh_blob_def encryptKeyMaterial_def field_text_nonempty [OF assms(1)])
  then show "local_blob (store(sub \<mapsto> fresh_blob P e sub key)) sub
           = Some (encryptedKeyMaterial (fresh_blob P e sub key))"
    by (simp add: local_blob_def)
  show "blob_accepts P (encryptedKeyMaterial (fresh_blob P e sub key)) sub key"
    by (simp add: blob_accepts_def fresh_blob_def
        decryptKeyMaterial_encryptKeyMaterial [OF assms(1) p(2) assms(4)] p(1))
qed

lemma alice_keys:
  "deriveKey toy correct_passphrase (map charCodeAt alice_salt) = alice_key"
  "deriveKey toy wrong_passphrase (map charCodeAt alice_salt) = wrong_key"
  "blob_accepts toy alice_material alice alice_key"
  "\<not> blob_accepts toy alice_material alice wrong_key"
  "decryptAnalysisData toy alice_record alice_key = Some example_record"
  "decryptAnalysisData toy alice_record wrong_key = None"
proof -
  show "deriveKey toy correct_passphrase (map charCodeAt alice_salt) = alice_key"
    by (simp add: alice_key_def)
  show "deriveKey toy wrong_passphrase (map charCodeAt alice_salt) = wrong_key"
    by (simp add: wrong_key_def)
  have s: "json_safe toy (verification_payload 1000 alice)"
    by (rule payload_safe) (simp_all add: alice_def well_formed_lit)
  note p = payload_identity [OF toy_ok s alice_text(1)]
  show "blob_accepts toy alice_material alice alice_key"
    by (simp add: blob_accepts_def alice_material_def
        decryptKeyMaterial_encryptKeyMaterial [OF toy_ok p(2) nonce_length] p(1))
  show "\<not> blob_accepts toy alice_material alice wrong_key"
    by (simp add: blob_accepts_def alice_material_def decryptKeyMaterial_def
        encryptKeyMaterial_def parse_field [OF toy_ok] toy_wrong_key [OF wrong_key_differs])
  show "decryptAnalysisData toy alice_record alice_key = Some example_record"
    unfolding alice_record_def
    by (rule round_trip [OF toy_ok example_record_valid nonce_length nonce_length nonce_length
          nonce_length])
  show "decryptAnalysisData toy alice_record wrong_key = None"
    by (simp add: alice_record_def decryptAnalysisData_def encryptAnalysisData_def Let_def
        parse_field [OF toy_ok] toy_wrong_key [OF wrong_key_differs] truthy_str_def)
qed

text \<open>
  Claim C5. For a user with an identity, a salt that decodes and a verification
  blob in the local store, \<open>unlockEncryption\<close> succeeds exactly when the blob
  decrypts under the candidate key and the identity embedded in it is the user's.
  Then the key is in memory and the session unlocked. Otherwise the error is the
  invalid-passphrase error, and the session is what it was but for the console
  line, the end of the loading and the salt that was fetched: key, \<open>isUnlocked\<close>,
  \<open>isSetup\<close>, \<open>hasCheckedSetup\<close> and the store are unchanged, so a locked
  session stays locked, with no key in memory.
\<close>

theorem unlock_with_local_blob:
  assumes "userSub e = Some sub" and "sub \<noteq> []"
    and "unlock_salt e s = (Some salt64, s1)" and "salt64 \<noteq> []"
    and "atob P salt64 = Some binary" and "keyRead e = Works"
    and "local_blob (db s) sub = Some material"
  shows "let key = deriveKey P p (map charCodeAt binary);
             r = unlockEncryption P e p s
         in (fst r = Inr ()) = blob_accepts P material sub key \<and>
            (blob_accepts P material sub key \<longrightarrow>
               encryptionKey (snd r) = Some key \<and> isUnlocked (snd r) \<and> isSetup (snd r) \<and>
               db (snd r) = db s) \<and>
            (\<not> blob_accepts P material sub key \<longrightarrow>
               fst r = Inl InvalidPassphrase \<and>
               snd r = s1\<lparr>console := console s1 @ [''Failed to unlock encryption:''],
                          isLoading := False\<rparr> \<and>
               encryptionKey (snd r) = encryptionKey s \<and>
               isUnlocked (snd r) = isUnlocked s \<and>
               isSetup (snd r) = isSetup s \<and>
               hasCheckedSetup (snd r) = hasCheckedSetup s \<and>
               db (snd r) = db s \<and>
               (locked s \<longrightarrow> locked (snd r)))"
  using unlock_failed_frame [OF assms(3), of InvalidPassphrase] unlock_salt_frame [OF assms(3)]
  by (simp add: Let_def unlock_reduced [OF assms(1-6)] assms(7) verify_blob_refines [OF assms(2)])

theorem unlock_with_local_blob_witness:
  "local_blob (db locked_state) alice = Some alice_material \<and>
   locked locked_state \<and>
   fst (unlockEncryption toy signed_in wrong_passphrase locked_state) = Inl InvalidPassphrase \<and>
   snd (unlockEncryption toy signed_in wrong_passphrase locked_state)
     = locked_state\<lparr>console := [''Failed to unlock encryption:''], isLoading := False\<rparr> \<and>
   locked (snd (unlockEncryption toy signed_in wrong_passphrase locked_state)) \<and>
   fst (unlockEncryption toy signed_in correct_passphrase locked_state) = Inr () \<and>
   encryptionKey (snd (unlockEncryption toy signed_in correct_passphrase locked_state))
     = Some alice_key"
proof -
  note t = unlock_with_local_blob [OF alice_ready(1,2,6,3,4,5) alice_blob, unfolded Let_def]
  have l: "locked locked_state" "console locked_state = []"
    by (simp_all add: locked_state_def locked_def)
  from t [of wrong_passphrase, unfolded alice_keys(2)] alice_keys(4)
  have w: "fst (unlockEncryption toy signed_in wrong_passphrase locked_state) = Inl InvalidPassphrase"
    "snd (unlockEncryption toy signed_in wrong_passphrase locked_state)
     = locked_state\<lparr>console := console locked_state @ [''Failed to unlock encryption:''],
         isLoading := False\<rparr>"
    "locked locked_state \<longrightarrow> locked (snd (unlockEncryption toy signed_in wrong_passphrase locked_state))"
    by blast+
  from t [of correct_passphrase, unfolded alice_keys(1)] alice_keys(3)
  have c: "fst (unlockEncryption toy signed_in correct_passphrase locked_state) = Inr ()"
    "encryptionKey (snd (unlockEncryption toy signed_in correct_passphrase locked_state))
     = Some alice_key"
    by blast+
  from w l c alice_blob show ?thesis
    by simp
qed

text \<open>
  Claim C6. For a user with an identity, a salt that decodes and no verification
  blob in a local store that can be read and written: when the collaborator
  returns at least one record and the first decrypts under the candidate key,
  \<open>unlockEncryption\<close> succeeds, holds the key and stores a fresh verification
  blob for the user, one that the verification of the next unlock accepts under
  the same key; when that record does not decrypt, it fails with the
  invalid-passphrase error, changes nothing but the console and the loading flag,
  and stores nothing; when the collaborator returns no record, it succeeds and
  stores such a blob.
\<close>

theorem unlock_without_local_blob:
  assumes "platform_ok P" and "json_safe P (verification_payload (now e) sub)"
    and "userSub e = Some sub" and "sub \<noteq> []"
    and "unlock_salt e s = (Some salt64, s1)" and "salt64 \<noteq> []"
    and "atob P salt64 = Some binary" and "keyRead e = Works" and "keyWrite e = Works"
    and "local_blob (db s) sub = None"
    and "analysesResponse e = Ok items"
    and "length (randomIv e) = IV_LENGTH"
  shows "let key = deriveKey P p (map charCodeAt binary);
             r = unlockEncryption P e p s;
             accepted =
               (fst r = Inr () \<and> encryptionKey (snd r) = Some key \<and> isUnlocked (snd r) \<and>
                isSetup (snd r) \<and>
                db (snd r) = (db s)(sub \<mapsto> fresh_blob P e sub key) \<and>
                (\<exists>material. local_blob (db (snd r)) sub = Some material \<and>
                   blob_accepts P material sub key));
             rejected =
               (fst r = Inl InvalidPassphrase \<and>
                snd r = s1\<lparr>console := console s1 @ [''Failed to unlock encryption:''],
                           isLoading := False\<rparr> \<and>
                encryptionKey (snd r) = encryptionKey s \<and>
                isUnlocked (snd r) = isUnlocked s \<and>
                isSetup (snd r) = isSetup s \<and>
                hasCheckedSetup (snd r) = hasCheckedSetup s \<and>
                db (snd r) = db s \<and>
                local_blob (db (snd r)) sub = None)
         in (case items of
               [] \<Rightarrow> accepted
             | encryptedRecord # rest \<Rightarrow>
                 (case decryptAnalysisData P encryptedRecord key of
                    Some plain \<Rightarrow> accepted
                  | None \<Rightarrow> rejected))"
proof -
  define key where "key = deriveKey P p (map charCodeAt binary)"
  note f = fresh_blob_accepts [OF assms(1,4,2,12)]
  note u = unlock_reduced [OF assms(3-8), of p, folded key_def]
  note v = verify_records_cases [of P e "db s" sub key]
  note x = unlock_failed_frame [OF assms(5), of InvalidPassphrase]
  have a: "fst (unlockEncryption P e p s) = Inr () \<and>
      encryptionKey (snd (unlockEncryption P e p s)) = Some key \<and>
      isUnlocked (snd (unlockEncryption P e p s)) \<and> isSetup (snd (unlockEncryption P e p s)) \<and>
      db (snd (unlockEncryption P e p s)) = (db s)(sub \<mapsto> fresh_blob P e sub key) \<and>
      (\<exists>material. local_blob (db (snd (unlockEncryption P e p s))) sub = Some material \<and>
         blob_accepts P material sub key)"
    if "verify_records P e (db s) sub key = Inr ((db s)(sub \<mapsto> fresh_blob P e sub key))"
    using that by (simp add: u assms(10) f)
  have b: "fst (unlockEncryption P e p s) = Inl InvalidPassphrase \<and>
      snd (unlockEncryption P e p s)
        = s1\<lparr>console := console s1 @ [''Failed to unlock encryption:''], isLoading := False\<rparr> \<and>
      encryptionKey (snd (unlockEncryption P e p s)) = encryptionKey s \<and>
      isUnlocked (snd (unlockEncryption P e p s)) = isUnlocked s \<and>
      isSetup (snd (unlockEncryption P e p s)) = isSetup s \<and>
      hasCheckedSetup (snd (unlockEncryption P e p s)) = hasCheckedSetup s \<and>
      db (snd (unlockEncryption P e p s)) = db s \<and>
      local_blob (db (snd (unlockEncryption P e p s))) sub = None"
    if "verify_records P e (db s) sub key = Inl InvalidPassphrase"
    using that x by (simp add: u assms(10))
  show ?thesis
  proof (cases items)
    case Nil
    with v assms(9,11) have "verify_records P e (db s) sub key
        = Inr ((db s)(sub \<mapsto> fresh_blob P e sub key))"
      by simp
    then show ?thesis
      unfolding Let_def key_def [symmetric] Nil list.case by (rule a)
  next
    case (Cons encryptedRecord rest)
    show ?thesis
    proof (cases "decryptAnalysisData P encryptedRecord key")
      case None
      with v assms(9,11) Cons have "verify_records P e (db s) sub key = Inl InvalidPassphrase"
        by simp
      then show ?thesis
        unfolding Let_def key_def [symmetric] Cons list.case None option.case by (rule b)
    next
      case (Some plain)
      with v assms(9,11) Cons have "verify_records P e (db s) sub key
          = Inr ((db s)(sub \<mapsto> fresh_blob P e sub key))"
        by simp
      then show ?thesis
        unfolding Let_def key_def [symmetric] Cons list.case Some option.case by (rule a)
    qed
  qed
qed

text \<open>
  When the store refuses the write, nothing is stored and the unlock fails: with
  the invalid-passphrase error when a record was there, whether or not it
  decrypted, and with the error of a failed verification when there was none.
\<close>

lemma unlock_write_failure:
  assumes "userSub e = Some sub" and "sub \<noteq> []"
    and "unlock_salt e s = (Some salt64, s1)" and "salt64 \<noteq> []"
    and "atob P salt64 = Some binary" and "keyRead e = Works" and "keyWrite e \<noteq> Works"
    and "local_blob (db s) sub = None"
    and "analysesResponse e = Ok items"
  shows "fst (unlockEncryption P e p s) =
           (case items of
              [] \<Rightarrow> Inl VerifyFailed
            | encryptedRecord # rest \<Rightarrow> Inl InvalidPassphrase)"
    and "db (snd (unlockEncryption P e p s)) = db s"
    and "encryptionKey (snd (unlockEncryption P e p s)) = encryptionKey s"
  using assms(7,9) unlock_salt_frame [OF assms(3)]
  by (simp_all add: unlock_reduced [OF assms(1-6)] assms(8) verify_records_cases
      unlock_failed_def log_error_def split: list.splits option.splits)

theorem unlock_without_local_blob_witness:
  "local_blob (db new_device_state) alice = None \<and>
   analysesResponse signed_in = Ok [alice_record] \<and>
   fst (unlockEncryption toy signed_in correct_passphrase new_device_state) = Inr () \<and>
   encryptionKey (snd (unlockEncryption toy signed_in correct_passphrase new_device_state))
     = Some alice_key \<and>
   (\<exists>material.
      local_blob (db (snd (unlockEncryption toy signed_in correct_passphrase new_device_state))) alice
        = Some material \<and>
      blob_accepts toy material alice alice_key) \<and>
   fst (unlockEncryption toy signed_in wrong_passphrase new_device_state)
     = Inl InvalidPassphrase \<and>
   local_blob (db (snd (unlockEncryption toy signed_in wrong_passphrase new_device_state))) alice
     = None \<and>
   analysesResponse no_records = Ok [] \<and>
   fst (unlockEncryption toy no_records wrong_passphrase new_device_state) = Inr () \<and>
   (\<exists>material.
      local_blob (db (snd (unlockEncryption toy no_records wrong_passphrase new_device_state))) alice
        = Some material \<and>
      blob_accepts toy material alice wrong_key)"
proof -
  have r: "analysesResponse signed_in = Ok [alice_record]"
    by (simp add: signed_in_def)
  have n: "userSub no_records = Some alice" "keyRead no_records = Works"
    "keyWrite no_records = Works"
    "unlock_salt no_records new_device_state = (Some alice_salt, new_device_state)"
    "analysesResponse no_records = Ok []" "length (randomIv no_records) = IV_LENGTH"
    by (simp_all add: no_records_def signed_in_def unlock_salt_def new_device_state_def
        alice_text truthy_str_def nonce_length)
  have j: "json_safe toy (verification_payload (now signed_in) alice)"
    "json_safe toy (verification_payload (now no_records) alice)"
    by (rule payload_safe, simp add: signed_in_def, simp add: alice_def well_formed_lit,
        rule payload_safe, simp add: no_records_def signed_in_def,
        simp add: alice_def well_formed_lit)
  note t = unlock_without_local_blob
    [OF toy_ok j(1) alice_ready(1,2,7,3,4,5,8) new_device_blob r alice_ready(9),
      unfolded Let_def]
  note u = unlock_without_local_blob
    [OF toy_ok j(2) n(1) alice_ready(2) n(4) alice_ready(3,4) n(2,3) new_device_blob n(5,6),
      unfolded Let_def]
  from t [of correct_passphrase, unfolded alice_keys(1) list.case alice_keys(5) option.case]
  have a: "fst (unlockEncryption toy signed_in correct_passphrase new_device_state) = Inr ()"
    "encryptionKey (snd (unlockEncryption toy signed_in correct_passphrase new_device_state))
     = Some alice_key"
    "\<exists>material.
      local_blob (db (snd (unlockEncryption toy signed_in correct_passphrase new_device_state))) alice
        = Some material \<and>
      blob_accepts toy material alice alice_key"
    by blast+
  from t [of wrong_passphrase, unfolded alice_keys(2) list.case alice_keys(6) option.case]
  have b: "fst (unlockEncryption toy signed_in wrong_passphrase new_device_state)
     = Inl InvalidPassphrase"
    "local_blob (db (snd (unlockEncryption toy signed_in wrong_passphrase new_device_state))) alice
     = None"
    by blast+
  from u [of wrong_passphrase, unfolded alice_keys(2) list.case]
  have c: "fst (unlockEncryption toy no_records wrong_passphrase new_device_state) = Inr ()"
    "\<exists>material.
      local_blob (db (snd (unlockEncryption toy no_records wrong_passphrase new_device_state))) alice
        = Some material \<and>
      blob_accepts toy material alice wrong_key"
    by blast+
  from a b c new_device_blob r n(5) show ?thesis
    by blast
qed




section \<open>The lockout tracker\<close>

text \<open>\<open>Math.ceil(ms / 1000)\<close> is the ceiling of the quotient.\<close>

lemma ceil_seconds_ceiling: "ceil_seconds ms = \<lceil>real_of_int ms / 1000\<rceil>"
proof -
  have "\<lfloor>real_of_int (- ms) / real_of_int 1000\<rfloor> = (- ms) div 1000"
    by (rule floor_divide_of_int_eq)
  then show ?thesis
    by (simp add: ceil_seconds_def ceiling_def)
qed

lemma ceil_seconds_pos: "0 < ms \<Longrightarrow> 0 < ceil_seconds ms"
  unfolding ceil_seconds_def by linarith

lemma ceil_seconds_nonneg: "0 \<le> ms \<Longrightarrow> 0 \<le> ceil_seconds ms"
  unfolding ceil_seconds_def by linarith

lemma ceil_seconds_neg: "ms \<le> - 1000 \<Longrightarrow> ceil_seconds ms < 0"
  unfolding ceil_seconds_def by linarith

text \<open>A call that is not throttled is served from the item when it parses, and asks
  the collaborator when there is no item, when the item is the empty string, and,
  after removing it, when it does not parse.\<close>

lemma cache_branch:
  assumes "sub \<noteq> []" and "MIN_CHECK_INTERVAL \<le> t_throttle c - lastCheckTime st"
    and "localStorage st sub = Some (Parsed lu att ts)"
  shows "checkStatus (Some sub) True c remote st =
           st\<lparr>lastCheckTime := t_throttle c,
              status :=
                \<lparr>isLocked = (0 < (if truthy_num lu then max 0 (the lu - t_cache c) else 0)),
                 remainingSeconds =
                   ceil_seconds (if truthy_num lu then max 0 (the lu - t_cache c) else 0),
                 attempts = (if truthy_num att then the att else 0),
                 lockedUntil = (if truthy_num lu then lu else None)\<rparr>\<rparr>"
  using assms by (simp add: checkStatus_def truthy_str_def Let_def)

lemma backend_branch:
  assumes "sub \<noteq> []" and "MIN_CHECK_INTERVAL \<le> t_throttle c - lastCheckTime st"
    and "localStorage st sub = None \<or> localStorage st sub = Some Empty"
  shows "checkStatus (Some sub) True c remote st =
           checkBackend sub c remote (st\<lparr>lastCheckTime := t_throttle c\<rparr>)"
  using assms by (auto simp add: checkStatus_def truthy_str_def Let_def)

lemma unparseable_branch:
  assumes "sub \<noteq> []" and "MIN_CHECK_INTERVAL \<le> t_throttle c - lastCheckTime st"
    and "localStorage st sub = Some Unparseable"
  shows "checkStatus (Some sub) True c remote st =
           checkBackend sub c remote
             (st\<lparr>lastCheckTime := t_throttle c, localStorage := (localStorage st)(sub := None)\<rparr>)"
  using assms by (simp add: checkStatus_def truthy_str_def Let_def)

text \<open>The cache branch never reports a negative remaining time.\<close>

lemma cache_remaining_nonneg:
  assumes "sub \<noteq> []" and "MIN_CHECK_INTERVAL \<le> t_throttle c - lastCheckTime st"
    and "localStorage st sub = Some (Parsed lu att ts)"
  shows "0 \<le> remainingSeconds (status (checkStatus (Some sub) True c remote st))"
  by (simp add: cache_branch [OF assms] ceil_seconds_nonneg)

lemma first_report:
  assumes "sub \<noteq> []" and "MIN_CHECK_INTERVAL \<le> t_throttle c - lastCheckTime st"
    and "localStorage st sub = None" and "T \<noteq> 0" and "t_locked c < T"
  shows "checkStatus (Some sub) True c (locked_until T) st =
           st\<lparr>lastCheckTime := t_throttle c,
              status := \<lparr>isLocked = True, remainingSeconds = ceil_seconds (T - t_remaining c),
                         attempts = 5, lockedUntil = Some T\<rparr>,
              localStorage := (localStorage st)(sub \<mapsto> Parsed (Some T) (Some 5) (Some (t_stamp c))),
              dispatched := dispatched st @ [sub]\<rparr>"
  using assms(3,4,5)
  by (simp add: backend_branch [OF assms(1,2)] checkBackend_def locked_until_def truthy_num_def Let_def)

text \<open>
  Claim C3, as the code has it. The tracker serves the status from the local cache
  whenever an item is there and parses, whether or not its \<open>lockedUntil\<close> has
  passed, and asks the collaborator only otherwise. After the collaborator reports
  five attempts and a lock until \<open>T\<close> that lies ahead, the status is locked with
  \<open>\<lceil>(T - now) / 1000\<rceil>\<close> seconds remaining and the report is cached. A later
  refresh is served from that item whatever the collaborator would answer: while
  \<open>now < T\<close> it is locked with \<open>\<lceil>(T - now) / 1000\<rceil>\<close> seconds remaining; once
  \<open>T \<le> now\<close> it is unlocked with no seconds remaining, and the attempts are
  still the five of the cache.
\<close>

theorem tracker_prefers_cache:
  assumes "sub \<noteq> []"
    and "MIN_CHECK_INTERVAL \<le> t_throttle c1 - lastCheckTime st"
    and "MIN_CHECK_INTERVAL \<le> t_throttle c2 - t_throttle c1"
    and "localStorage st sub = None"
    and "T \<noteq> 0" and "t_locked c1 < T"
  shows "let st1 = checkStatus (Some sub) True c1 (locked_until T) st;
             st2 = checkStatus (Some sub) True c2 remote st1
         in status st1 = \<lparr>isLocked = True,
                          remainingSeconds = \<lceil>real_of_int (T - t_remaining c1) / 1000\<rceil>,
                          attempts = 5, lockedUntil = Some T\<rparr> \<and>
            localStorage st1 sub = Some (Parsed (Some T) (Some 5) (Some (t_stamp c1))) \<and>
            (t_cache c2 < T \<longrightarrow>
               status st2 = \<lparr>isLocked = True,
                             remainingSeconds = \<lceil>real_of_int (T - t_cache c2) / 1000\<rceil>,
                             attempts = 5, lockedUntil = Some T\<rparr>) \<and>
            (T \<le> t_cache c2 \<longrightarrow>
               status st2 = \<lparr>isLocked = False, remainingSeconds = 0,
                             attempts = 5, lockedUntil = Some T\<rparr>) \<and>
            localStorage st2 = localStorage st1 \<and>
            st2 = checkStatus (Some sub) True c2 reset_answer st1"
proof -
  define st1 where "st1 = checkStatus (Some sub) True c1 (locked_until T) st"
  have s1: "st1 = st\<lparr>lastCheckTime := t_throttle c1,
              status := \<lparr>isLocked = True, remainingSeconds = ceil_seconds (T - t_remaining c1),
                         attempts = 5, lockedUntil = Some T\<rparr>,
              localStorage := (localStorage st)(sub \<mapsto> Parsed (Some T) (Some 5) (Some (t_stamp c1))),
              dispatched := dispatched st @ [sub]\<rparr>"
    unfolding st1_def by (rule first_report [OF assms(1,2,4,5,6)])
  have t: "MIN_CHECK_INTERVAL \<le> t_throttle c2 - lastCheckTime st1"
    using assms(3) by (simp add: s1)
  have l: "localStorage st1 sub = Some (Parsed (Some T) (Some 5) (Some (t_stamp c1)))"
    by (simp add: s1)
  note c = cache_branch [OF assms(1) t l]
  have "status st1 = \<lparr>isLocked = True,
                          remainingSeconds = \<lceil>real_of_int (T - t_remaining c1) / 1000\<rceil>,
                          attempts = 5, lockedUntil = Some T\<rparr>"
    by (simp add: s1 ceil_seconds_ceiling [of "T - t_remaining c1"])
  moreover have "status (checkStatus (Some sub) True c2 remote st1)
       = \<lparr>isLocked = True, remainingSeconds = \<lceil>real_of_int (T - t_cache c2) / 1000\<rceil>,
          attempts = 5, lockedUntil = Some T\<rparr>" if "t_cache c2 < T"
    using that assms(5) ceil_seconds_pos [of "T - t_cache c2"]
    by (simp add: c truthy_num_def max_def ceil_seconds_ceiling [of "T - t_cache c2"])
  moreover have "status (checkStatus (Some sub) True c2 remote st1)
       = \<lparr>isLocked = False, remainingSeconds = 0, attempts = 5, lockedUntil = Some T\<rparr>"
    if "T \<le> t_cache c2"
    using that assms(5) by (simp add: c truthy_num_def max_def ceil_seconds_def)
  moreover have "localStorage (checkStatus (Some sub) True c2 remote st1) = localStorage st1"
    by (simp add: c)
  moreover have "checkStatus (Some sub) True c2 remote st1
       = checkStatus (Some sub) True c2 reset_answer st1"
    by (simp add: c cache_branch [OF assms(1) t l, of reset_answer])
  ultimately show ?thesis
    using l unfolding Let_def st1_def [symmetric] by blast
qed

theorem tracker_prefers_cache_witness:
  "let st1 = checkStatus (Some alice) True (at_time 4000) (locked_until 10000) initial_tracker;
       st2 = checkStatus (Some alice) True (at_time 20000) reset_answer st1
   in status st1 = \<lparr>isLocked = True, remainingSeconds = 6, attempts = 5, lockedUntil = Some 10000\<rparr> \<and>
      status st2 = \<lparr>isLocked = False, remainingSeconds = 0, attempts = 5, lockedUntil = Some 10000\<rparr>"
  using tracker_prefers_cache [of alice "at_time 4000" initial_tracker "at_time 20000" 10000 reset_answer]
  by (simp add: alice_text at_time_def initial_tracker_def MIN_CHECK_INTERVAL_def Let_def)

lemma alice_first_report:
  "checkStatus (Some alice) True (at_time 4000) (locked_until 10000) initial_tracker
   = initial_tracker
       \<lparr>lastCheckTime := 4000,
        status := \<lparr>isLocked = True, remainingSeconds = 6, attempts = 5, lockedUntil = Some 10000\<rparr>,
        localStorage := [alice \<mapsto> Parsed (Some 10000) (Some 5) (Some 4000)],
        dispatched := [alice]\<rparr>"
  using first_report [of alice "at_time 4000" initial_tracker 10000]
  by (simp add: alice_text at_time_def initial_tracker_def MIN_CHECK_INTERVAL_def ceil_seconds_def)

text \<open>
  Claim C3 as stated fails: with the report of a lock until 10000 in the cache, a
  refresh at 20000, when the collaborator would report no lock and no attempts,
  still reports five attempts.
\<close>

theorem expired_cache_counterexample:
  "localStorage (checkStatus (Some alice) True (at_time 4000) (locked_until 10000) initial_tracker) alice
     = Some (Parsed (Some 10000) (Some 5) (Some 4000)) \<and>
   attempts (status (checkStatus (Some alice) True (at_time 20000) reset_answer
     (checkStatus (Some alice) True (at_time 4000) (locked_until 10000) initial_tracker))) = 5"
proof -
  have "attempts (status (checkStatus (Some alice) True (at_time 20000) reset_answer
     (initial_tracker
       \<lparr>lastCheckTime := 4000,
        status := \<lparr>isLocked = True, remainingSeconds = 6, attempts = 5, lockedUntil = Some 10000\<rparr>,
        localStorage := [alice \<mapsto> Parsed (Some 10000) (Some 5) (Some 4000)],
        dispatched := [alice]\<rparr>))) = 5"
    by (subst cache_branch [where lu = "Some 10000" and att = "Some 5" and ts = "Some 4000"])
      (simp_all add: alice_text at_time_def MIN_CHECK_INTERVAL_def truthy_num_def)
  then show ?thesis
    by (simp add: alice_first_report)
qed

text \<open>
  Claim C9 fails on the branch that asks the collaborator. The cache branch clamps
  the remaining time at zero; the other does not, and when the collaborator
  reports a \<open>lockedUntil\<close> that lies a second or more in the past the status has
  a negative \<open>remainingSeconds\<close>.
\<close>

theorem backend_remaining_negative:
  assumes "sub \<noteq> []" and "MIN_CHECK_INTERVAL \<le> t_throttle c - lastCheckTime st"
    and "localStorage st sub = None" and "T \<noteq> 0" and "T + 1000 \<le> t_remaining c"
  shows "remainingSeconds (status (checkStatus (Some sub) True c
           (Ok \<lparr>data_lockedUntil = Some T, data_attempts = a\<rparr>) st)) < 0"
  using assms(3,4,5)
  by (simp add: backend_branch [OF assms(1,2)] checkBackend_def truthy_num_def Let_def ceil_seconds_neg)

theorem backend_remaining_negative_witness:
  "remainingSeconds (status (checkStatus (Some alice) True (at_time 6000) (locked_until 1000)
      initial_tracker)) = - 5 \<and>
   remainingSeconds (status (checkStatus (Some alice) True (at_time 6000) (locked_until 1000)
      initial_tracker)) < 0"
proof -
  have "checkStatus (Some alice) True (at_time 6000) (locked_until 1000) initial_tracker
        = checkBackend alice (at_time 6000) (locked_until 1000)
            (initial_tracker\<lparr>lastCheckTime := t_throttle (at_time 6000)\<rparr>)"
    by (rule backend_branch)
      (simp_all add: alice_text at_time_def initial_tracker_def MIN_CHECK_INTERVAL_def)
  then have "remainingSeconds (status (checkStatus (Some alice) True (at_time 6000) (locked_until 1000)
      initial_tracker)) = - 5"
    by (simp add: checkBackend_def locked_until_def at_time_def truthy_num_def Let_def
        ceil_seconds_def)
  moreover have "remainingSeconds (status (checkStatus (Some alice) True (at_time 6000) (locked_until 1000)
      initial_tracker)) < 0"
    using backend_remaining_negative [of alice "at_time 6000" initial_tracker 1000 "Some 5"]
    by (simp add: alice_text at_time_def initial_tracker_def MIN_CHECK_INTERVAL_def locked_until_def)
  ultimately show ?thesis by simp
qed

end
